theory Spec2Isabelle
  imports Complex_Main "HOL-Library.Word"
begin

section \<open>Data model\<close>

text \<open>
  The tables of the relational store, one record per row type. Money (balance, profit,
  reward and deposit amounts) is modelled by exact rationals; identifiers are naturals;
  timestamps are naturals supplied by the caller (\<open>now\<close>). A nullable column is an
  \<open>option\<close>. A table is the list of its rows in primary-key order.
\<close>

datatype reward_status = Pending | Paid | Rejected

datatype deposit_status = DepPending | DepConfirmed | DepApproved | DepRejected

record user =
  uid :: nat
  referralCode :: "string option"
  referredById :: "nat option"
  referredByCode :: "string option"
  referralCount :: int
  balance :: rat
  totalEarned :: rat

record deposit =
  did :: nat
  d_userId :: nat
  d_amount :: rat
  d_currency :: string
  d_transactionHash :: string
  d_paymentProofUrl :: string
  d_status :: deposit_status
  d_confirmedAt :: "nat option"
  d_createdAt :: nat

record progress =
  pid :: nat
  p_userId :: nat
  planAmount :: int
  profit :: rat
  roundCount :: int
  canWithdraw :: bool

record reward =
  rid :: nat
  referrerId :: nat
  referredUserId :: nat
  amount :: rat
  r_planAmount :: rat
  planType :: "string option"
  r_status :: reward_status
  paidAt :: "nat option"

record withdrawal =
  wid :: nat
  w_userId :: nat
  w_amount :: rat
  w_currency :: string
  w_recipientAddress :: string
  w_status :: string

record db =
  users :: "user list"
  deposits :: "deposit list"
  progresses :: "progress list"
  rewards :: "reward list"
  withdrawals :: "withdrawal list"

text \<open>Every way a handler or library function of the source fails.\<close>

datatype error =
    UserNotFound
  | CodeGenerationFailed
  | RecordNotFound
  | InvalidOrProcessedReward
  | PendingRewardNotFound
  | Forbidden
  | RewardIdRequired
  | NoApprovedDeposit
  | NoPlanFound
  | InvalidRewardAmount
  | MissingFields
  | AlreadyDeposited
  | InvalidPlan
  | PendingDepositNotFound
  | DepositMismatch
  | Unauthenticated
  | AmountNotPositive
  | InsufficientBalance

text \<open>A failed transaction or request leaves the store as it was.\<close>

definition commit :: "db \<Rightarrow> error + db \<Rightarrow> db" where
  "commit s r = (case r of Inl e \<Rightarrow> s | Inr s' \<Rightarrow> s')"

subsection \<open>Store primitives\<close>

definition findUser :: "nat \<Rightarrow> db \<Rightarrow> user option" where
  "findUser i s = find (\<lambda>u. uid u = i) (users s)"

text \<open>\<open>user.update({where: {id}})\<close>: throws when no row has the id.\<close>

definition updateUser :: "nat \<Rightarrow> (user \<Rightarrow> user) \<Rightarrow> db \<Rightarrow> error + db" where
  "updateUser i f s =
     (if list_ex (\<lambda>u. uid u = i) (users s)
      then Inr (s\<lparr>users := map (\<lambda>u. if uid u = i then f u else u) (users s)\<rparr>)
      else Inl RecordNotFound)"

definition findReward :: "nat \<Rightarrow> db \<Rightarrow> reward option" where
  "findReward i s = find (\<lambda>r. rid r = i) (rewards s)"

definition updateReward :: "nat \<Rightarrow> (reward \<Rightarrow> reward) \<Rightarrow> db \<Rightarrow> error + db" where
  "updateReward i f s =
     (if list_ex (\<lambda>r. rid r = i) (rewards s)
      then Inr (s\<lparr>rewards := map (\<lambda>r. if rid r = i then f r else r) (rewards s)\<rparr>)
      else Inl RecordNotFound)"

text \<open>\<open>{balance: {increment: a}, totalEarned: {increment: a}}\<close>\<close>

definition credit :: "rat \<Rightarrow> user \<Rightarrow> user" where
  "credit a u = u\<lparr>balance := balance u + a, totalEarned := totalEarned u + a\<rparr>"

text \<open>An autoincrement primary key: larger than every key in the table.\<close>

definition nextId :: "nat list \<Rightarrow> nat" where
  "nextId ids = Suc (foldr max ids 0)"

section \<open>Referral code registry (lib/referral.ts)\<close>

definition chars :: string where
  "chars = ''0123456789ABCDEFGHIJKLMNOPQRSTUVWXYZ''"

text \<open>
  \<open>generateReferralCode(length = 8)\<close>. The random bytes of the \<open>Uint8Array\<close> are an
  input: \<open>randomValues i\<close> is the byte at index \<open>i\<close>.
\<close>

definition generateReferralCode :: "(nat \<Rightarrow> 8 word) \<Rightarrow> nat \<Rightarrow> string" where
  "generateReferralCode randomValues len =
     map (\<lambda>i. chars ! (unat (randomValues i) mod length chars)) [0..<len]"

text \<open>The test \<open>/^[A-Z0-9]{8}$/\<close>.\<close>

definition isUpperAlnum :: "char \<Rightarrow> bool" where
  "isUpperAlnum c =
     (let n = (of_char c :: nat) in (48 \<le> n \<and> n \<le> 57) \<or> (65 \<le> n \<and> n \<le> 90))"

definition validCode :: "string \<Rightarrow> bool" where
  "validCode c = (length c = 8 \<and> list_all isUpperAlnum c)"

definition maxAttempts :: nat where
  "maxAttempts = 10"

text \<open>
  The transaction of one attempt: \<open>None\<close> when it throws (\<open>txFails\<close>, or the update
  finds no row), \<open>Some None\<close> when the code is already taken, \<open>Some (Some s')\<close> when
  the user row now carries the code.
\<close>

definition assignCode :: "bool \<Rightarrow> nat \<Rightarrow> string \<Rightarrow> db \<Rightarrow> db option option" where
  "assignCode txFails userId code s =
     (if txFails then None
      else if list_ex (\<lambda>u. referralCode u = Some code) (users s) then Some None
      else (case updateUser userId (\<lambda>u. u\<lparr>referralCode := Some code\<rparr>) s of
              Inl e \<Rightarrow> None
            | Inr s' \<Rightarrow> Some (Some s')))"

text \<open>
  The \<open>while (attempts < maxAttempts)\<close> loop. \<open>rng a\<close> are the random bytes drawn in
  attempt \<open>a\<close>, \<open>txFails a\<close> says whether the transaction of attempt \<open>a\<close> throws (timeout,
  deadlock). The first component of the result counts the calls of
  \<open>generateReferralCode\<close> made.
\<close>

function codeLoop ::
  "(nat \<Rightarrow> nat \<Rightarrow> 8 word) \<Rightarrow> (nat \<Rightarrow> bool) \<Rightarrow> nat \<Rightarrow> nat \<Rightarrow> db \<Rightarrow> nat \<times> (error + string \<times> db)"
where
  "codeLoop rng txFails userId attempts s =
     (if attempts < maxAttempts then
        (let code = generateReferralCode (rng attempts) 8 in
         case assignCode (txFails attempts) userId code s of
           Some (Some s') \<Rightarrow>
             if code \<noteq> [] then (Suc attempts, Inr (code, s'))
             else codeLoop rng txFails userId (Suc attempts) s'
         | _ \<Rightarrow> codeLoop rng txFails userId (Suc attempts) s)
      else (attempts, Inl CodeGenerationFailed))"
  by pat_completeness auto
termination
  by (relation "measure (\<lambda>(rng, txFails, userId, attempts, s). maxAttempts - attempts)") auto

definition getOrCreateUserReferralCode ::
  "(nat \<Rightarrow> nat \<Rightarrow> 8 word) \<Rightarrow> (nat \<Rightarrow> bool) \<Rightarrow> nat \<Rightarrow> db \<Rightarrow> nat \<times> (error + string \<times> db)"
where
  "getOrCreateUserReferralCode rng txFails userId s =
     (case findUser userId s of
        None \<Rightarrow> (0, Inl UserNotFound)
      | Some u \<Rightarrow>
          (case referralCode u of
             Some c \<Rightarrow>
               if c \<noteq> [] \<and> validCode c then (0, Inr (c, s))
               else codeLoop rng txFails userId 0 s
           | None \<Rightarrow> codeLoop rng txFails userId 0 s))"

section \<open>Referral attribution (lib/referral.ts)\<close>

text \<open>\<open>String.prototype.toUpperCase\<close> on the ASCII letters.\<close>

definition upperChar :: "char \<Rightarrow> char" where
  "upperChar c =
     (let n = (of_char c :: nat) in if 97 \<le> n \<and> n \<le> 122 then char_of (n - 32) else c)"

definition toUpperCase :: "string \<Rightarrow> string" where
  "toUpperCase s = map upperChar s"

text \<open>
  \<open>processReferral(userId, referralCode?)\<close>: an absent or empty code is falsy. The two
  updates are not in a transaction, but the second cannot fail once the referrer was found.
\<close>

definition processReferral :: "nat \<Rightarrow> string option \<Rightarrow> db \<Rightarrow> error + nat option \<times> db" where
  "processReferral userId code s =
     (case code of
        None \<Rightarrow> Inr (None, s)
      | Some c \<Rightarrow>
          if c = [] then Inr (None, s)
          else
            (case find (\<lambda>u. referralCode u = Some (toUpperCase c) \<and> uid u \<noteq> userId) (users s) of
               None \<Rightarrow> Inr (None, s)
             | Some referrer \<Rightarrow>
                 (case updateUser userId
                         (\<lambda>u. u\<lparr>referredByCode := Some (toUpperCase c),
                                 referredById := Some (uid referrer)\<rparr>) s of
                    Inl e \<Rightarrow> Inl e
                  | Inr s1 \<Rightarrow>
                      (case updateUser (uid referrer)
                              (\<lambda>u. u\<lparr>referralCount := referralCount u + 1\<rparr>) s1 of
                         Inl e \<Rightarrow> Inl e
                       | Inr s2 \<Rightarrow> Inr (Some (uid referrer), s2)))))"

section \<open>Reward computation (lib/referral.ts)\<close>

text \<open>\<open>Number.prototype.toString\<close> on a whole number: its decimal digits.\<close>

function natToString :: "nat \<Rightarrow> string" where
  "natToString n =
     (if n < 10 then [char_of (48 + n)]
      else natToString (n div 10) @ [char_of (48 + n mod 10)])"
  by pat_completeness auto
termination
  by (relation "measure id") auto

definition intToString :: "int \<Rightarrow> string" where
  "intToString i = (if i < 0 then CHR ''-'' # natToString (nat (- i)) else natToString (nat i))"

text \<open>The table \<open>PLAN_REWARDS\<close>, keyed by the decimal string of the plan amount.\<close>

definition PLAN_REWARDS :: "(string \<times> rat) list" where
  "PLAN_REWARDS =
     [(''50'', 2), (''100'', 4), (''150'', 6), (''250'', 10),
      (''500'', 20), (''1000'', 40), (''1500'', 60), (''2500'', 100)]"

text \<open>\<open>PLAN_REWARDS[key] || 0\<close>\<close>

definition planReward :: "string \<Rightarrow> rat" where
  "planReward key = (case map_of PLAN_REWARDS key of None \<Rightarrow> 0 | Some a \<Rightarrow> a)"

text \<open>\<open>findFirst({orderBy: {k: 'desc'}, take: 1})\<close>: a row with the largest key.\<close>

fun latestBy :: "('a \<Rightarrow> nat) \<Rightarrow> 'a list \<Rightarrow> 'a option" where
  "latestBy k [] = None"
| "latestBy k (x # xs) =
     (case latestBy k xs of
        None \<Rightarrow> Some x
      | Some y \<Rightarrow> if k x < k y then Some y else Some x)"

definition createReward :: "reward \<Rightarrow> db \<Rightarrow> reward \<times> db" where
  "createReward r s =
     (let r' = r\<lparr>rid := nextId (map rid (rewards s))\<rparr>
      in (r', s\<lparr>rewards := rewards s @ [r']\<rparr>))"

definition planLabel :: "string \<Rightarrow> string" where
  "planLabel p = ''Referral Bonus ($'' @ p @ '' Plan)''"

text \<open>
  \<open>processReferralReward(referredUserId)\<close>. \<open>Inr (None, s)\<close> is the \<open>return null\<close>;
  an \<open>Inl\<close> is a thrown error, which rolls the transaction back. A \<open>referredById\<close> of
  0 is falsy, like an absent one.
\<close>

definition processReferralReward :: "nat \<Rightarrow> db \<Rightarrow> error + reward option \<times> db" where
  "processReferralReward referredUser s =
     (case findUser referredUser s of
        None \<Rightarrow> Inr (None, s)
      | Some u \<Rightarrow>
         (case referredById u of
            None \<Rightarrow> Inr (None, s)
          | Some refId \<Rightarrow>
             if refId = 0 then Inr (None, s)
             else
              (case findUser refId s of
                 None \<Rightarrow> Inr (None, s)
               | Some referrer \<Rightarrow>
                  if list_ex (\<lambda>r. referredUserId r = referredUser \<and> referrerId r = uid referrer
                                   \<and> r_status r = Paid) (rewards s)
                  then Inr (None, s)
                  else
                   (case latestBy did (filter (\<lambda>d. d_userId d = referredUser
                                                   \<and> d_status d = DepApproved) (deposits s)) of
                      None \<Rightarrow> Inl NoApprovedDeposit
                    | Some dep \<Rightarrow>
                       (case latestBy pid (filter (\<lambda>p. p_userId p = referredUser) (progresses s)) of
                          None \<Rightarrow> Inl NoPlanFound
                        | Some plan \<Rightarrow>
                           (let rewardAmount = planReward (intToString (planAmount plan)) in
                            if rewardAmount \<le> 0 then Inl InvalidRewardAmount
                            else
                              (let (r, s') = createReward
                                     \<lparr>rid = 0, referrerId = uid referrer,
                                      referredUserId = referredUser, amount = rewardAmount,
                                      r_planAmount = of_int (planAmount plan),
                                      planType = Some (planLabel (intToString (planAmount plan))),
                                      r_status = Pending, paidAt = None\<rparr> s
                               in Inr (Some r, s'))))))))"

section \<open>Reward approval\<close>

text \<open>"Determine which user to credit based on planType".\<close>

definition userIdToCredit :: "reward \<Rightarrow> nat" where
  "userIdToCredit rw =
     (if planType rw = Some ''Referred User Bonus'' then referredUserId rw else referrerId rw)"

text \<open>\<open>approveReferralReward(rewardId)\<close> of lib/referral.ts, one transaction.\<close>

definition approveReferralReward :: "nat \<Rightarrow> nat \<Rightarrow> db \<Rightarrow> error + reward \<times> db" where
  "approveReferralReward now rewardId s =
     (case findReward rewardId s of
        None \<Rightarrow> Inl InvalidOrProcessedReward
      | Some rw \<Rightarrow>
          if r_status rw = Paid then Inl InvalidOrProcessedReward
          else
            (case updateUser (userIdToCredit rw) (credit (amount rw)) s of
               Inl e \<Rightarrow> Inl e
             | Inr s1 \<Rightarrow>
                 (case updateReward rewardId (\<lambda>r. r\<lparr>r_status := Paid, paidAt := Some now\<rparr>) s1 of
                    Inl e \<Rightarrow> Inl e
                  | Inr s2 \<Rightarrow> Inr (rw\<lparr>r_status := Paid, paidAt := Some now\<rparr>, s2))))"

text \<open>
  The admin endpoint (its handler is also named \<open>approveReferralReward\<close>): the caller's
  role, the \<open>rewardId\<close> of the request body (absent or 0 is falsy), one transaction.
\<close>

definition approveRewardRoute ::
  "string option \<Rightarrow> nat option \<Rightarrow> nat \<Rightarrow> db \<Rightarrow> error + reward \<times> db"
where
  "approveRewardRoute callerRole rewardId now s =
     (if callerRole \<noteq> Some ''admin'' then Inl Forbidden
      else
        (case rewardId of
           None \<Rightarrow> Inl RewardIdRequired
         | Some i \<Rightarrow>
             if i = 0 then Inl RewardIdRequired
             else
               (case find (\<lambda>r. rid r = i \<and> r_status r = Pending) (rewards s) of
                  None \<Rightarrow> Inl PendingRewardNotFound
                | Some rw \<Rightarrow>
                    (case updateReward i (\<lambda>r. r\<lparr>r_status := Paid, paidAt := Some now\<rparr>) s of
                       Inl e \<Rightarrow> Inl e
                     | Inr s1 \<Rightarrow>
                         (case updateUser (referrerId rw) (credit (amount rw)) s1 of
                            Inl e \<Rightarrow> Inl e
                          | Inr s2 \<Rightarrow> Inr (rw\<lparr>r_status := Paid, paidAt := Some now\<rparr>, s2))))))"

section \<open>Balance reconciliation and account summary (api/plan/all-progress)\<close>

definition endsWith :: "string \<Rightarrow> string \<Rightarrow> bool" where
  "endsWith s suf = (length suf \<le> length s \<and> drop (length s - length suf) s = suf)"

definition creditedMark :: string where
  "creditedMark = '' [credited]''"

text \<open>
  The filter of the reconciling query: referrer is the user, status paid, and the label is
  null or does not end with the marker.
\<close>

definition isUncreditedPaid :: "nat \<Rightarrow> reward \<Rightarrow> bool" where
  "isUncreditedPaid userId r =
     (referrerId r = userId \<and> r_status r = Paid \<and>
      (case planType r of None \<Rightarrow> True | Some t \<Rightarrow> \<not> endsWith t creditedMark))"

text \<open>\<open>rs.reduce((sum, r) => sum + Number(r.amount), 0)\<close>\<close>

definition sumAmounts :: "reward list \<Rightarrow> rat" where
  "sumAmounts rs = foldl (\<lambda>sum r. sum + amount r) 0 rs"

definition creditedLabel :: "reward \<Rightarrow> string" where
  "creditedLabel r =
     (case planType r of None \<Rightarrow> ''Referral Bonus'' | Some t \<Rightarrow> t) @ creditedMark"

text \<open>The loop \<open>for (const r of uncreditedPaid)\<close> that marks each reward read.\<close>

fun markCredited :: "reward list \<Rightarrow> db \<Rightarrow> error + db" where
  "markCredited [] s = Inr s"
| "markCredited (r # rs) s =
     (case updateReward (rid r) (\<lambda>x. x\<lparr>planType := Some (creditedLabel r)\<rparr>) s of
        Inl e \<Rightarrow> Inl e
      | Inr s' \<Rightarrow> markCredited rs s')"

text \<open>The reconciliation transaction of the second \<open>GET\<close> handler.\<close>

definition reconcile :: "nat \<Rightarrow> db \<Rightarrow> error + db" where
  "reconcile userId s =
     (let uncreditedPaid = filter (isUncreditedPaid userId) (rewards s) in
      if length uncreditedPaid > 0 then
        (let totalToCredit = sumAmounts uncreditedPaid in
         case (if totalToCredit > 0 then updateUser userId (credit totalToCredit) s else Inr s) of
           Inl e \<Rightarrow> Inl e
         | Inr s1 \<Rightarrow> markCredited uncreditedPaid s1)
      else Inr s)"

text \<open>\<open>progresses.reduce((sum, p) => sum + (p.profit || 0), 0)\<close>\<close>

definition planProfitOf :: "progress list \<Rightarrow> rat" where
  "planProfitOf ps = foldl (\<lambda>sum p. sum + profit p) 0 ps"

definition eligible :: "progress list \<Rightarrow> bool" where
  "eligible ps = list_ex (\<lambda>p. canWithdraw p \<and> profit p > 0 \<and> roundCount p > 0) ps"

definition progressesOf :: "nat \<Rightarrow> db \<Rightarrow> progress list" where
  "progressesOf userId s = filter (\<lambda>p. p_userId p = userId) (progresses s)"

text \<open>\<open>Math.trunc\<close>\<close>

definition trunc :: "rat \<Rightarrow> int" where
  "trunc q = (if q < 0 then \<lceil>q\<rceil> else \<lfloor>q\<rfloor>)"

text \<open>
  Modelled from the spec: the schema with the column defaults of UserPlanProgress is not
  among the sources. The spec has profit accrue over time and canWithdraw true only once the
  eligibility criteria are met, so a row created from userId and planAmount alone starts
  with profit 0, roundCount 0 and canWithdraw false; the all-progress handlers write the
  same values out when they create a row.
\<close>

definition newProgress :: "nat \<Rightarrow> int \<Rightarrow> progress" where
  "newProgress userId amt =
     \<lparr>pid = 0, p_userId = userId, planAmount = amt,
      profit = 0, roundCount = 0, canWithdraw = False\<rparr>"

text \<open>\<open>userPlanProgress.upsert\<close> on the key (userId, planAmount) with \<open>update: {}\<close>.\<close>

definition upsertProgress :: "nat \<Rightarrow> int \<Rightarrow> db \<Rightarrow> db" where
  "upsertProgress userId amt s =
     (if list_ex (\<lambda>p. p_userId p = userId \<and> planAmount p = amt) (progresses s) then s
      else s\<lparr>progresses := progresses s @
             [(newProgress userId amt)\<lparr>pid := nextId (map pid (progresses s))\<rparr>]\<rparr>)"

text \<open>"If no progress exists yet, but user has a confirmed deposit, create the plan progress now".\<close>

definition ensureProgress :: "nat \<Rightarrow> db \<Rightarrow> db" where
  "ensureProgress userId s =
     (if progressesOf userId s = [] then
        (case latestBy d_createdAt
                (filter (\<lambda>d. d_userId d = userId \<and> d_status d = DepConfirmed) (deposits s)) of
           None \<Rightarrow> s
         | Some d \<Rightarrow> upsertProgress userId (trunc (d_amount d)) s)
      else s)"

record summary =
  totalProfit :: rat
  planProfit :: rat
  referralProfit :: rat
  sm_canWithdraw :: bool
  sm_balance :: "rat option"

text \<open>
  The four \<open>GET\<close> handlers that compute totals, in the order of the sources: the three of
  api/plan/all-progress/route.ts and the pending-inclusive one. An absent or zero user id is
  falsy.
\<close>

definition allProgressPaidEither :: "nat option \<Rightarrow> db \<Rightarrow> error + summary \<times> db" where
  "allProgressPaidEither userId s =
     (case userId of
        None \<Rightarrow> Inl Unauthenticated
      | Some u \<Rightarrow>
          if u = 0 then Inl Unauthenticated
          else
            (let ps = progressesOf u s;
                 referralRewards = filter (\<lambda>r. (referrerId r = u \<or> referredUserId r = u)
                                              \<and> r_status r = Paid) (rewards s);
                 pp = planProfitOf ps;
                 rp = sumAmounts (filter (\<lambda>r. r_status r = Paid) referralRewards)
             in Inr (\<lparr>totalProfit = pp + rp, planProfit = pp, referralProfit = rp,
                       sm_canWithdraw = eligible ps, sm_balance = None\<rparr>, s)))"

definition allProgressReconciling :: "nat option \<Rightarrow> db \<Rightarrow> error + summary \<times> db" where
  "allProgressReconciling userId s =
     (case userId of
        None \<Rightarrow> Inl Unauthenticated
      | Some u \<Rightarrow>
          if u = 0 then Inl Unauthenticated
          else
            (case reconcile u s of
               Inl e \<Rightarrow> Inl e
             | Inr s1 \<Rightarrow>
                 (let bal = (case findUser u s1 of None \<Rightarrow> 0 | Some usr \<Rightarrow> balance usr);
                      referralRewards = filter (\<lambda>r. r_status r = Paid \<and> referrerId r = u) (rewards s1);
                      s2 = ensureProgress u s1;
                      ps = progressesOf u s2;
                      pp = planProfitOf ps;
                      rp = sumAmounts referralRewards
                  in Inr (\<lparr>totalProfit = bal + pp, planProfit = pp, referralProfit = rp,
                            sm_canWithdraw = eligible ps, sm_balance = Some bal\<rparr>, s2))))"

definition allProgressPaidReferrer :: "nat option \<Rightarrow> db \<Rightarrow> error + summary \<times> db" where
  "allProgressPaidReferrer userId s =
     (case userId of
        None \<Rightarrow> Inl Unauthenticated
      | Some u \<Rightarrow>
          if u = 0 then Inl Unauthenticated
          else
            (let ps = progressesOf u s;
                 referralRewards = filter (\<lambda>r. referrerId r = u \<and> r_status r = Paid) (rewards s);
                 pp = planProfitOf ps;
                 rp = sumAmounts referralRewards
             in Inr (\<lparr>totalProfit = pp + rp, planProfit = pp, referralProfit = rp,
                       sm_canWithdraw = eligible ps, sm_balance = None\<rparr>, s)))"

definition allProgressPendingInclusive :: "nat option \<Rightarrow> db \<Rightarrow> error + summary \<times> db" where
  "allProgressPendingInclusive userId s =
     (case userId of
        None \<Rightarrow> Inl Unauthenticated
      | Some u \<Rightarrow>
          if u = 0 then Inl Unauthenticated
          else
            (let referralRewards = filter (\<lambda>r. referrerId r = u
                                              \<and> (r_status r = Pending \<or> r_status r = Paid)) (rewards s);
                 s1 = ensureProgress u s;
                 ps = progressesOf u s1;
                 pp = planProfitOf ps;
                 referralPaid = sumAmounts (filter (\<lambda>r. r_status r = Paid) referralRewards);
                 referralPending = sumAmounts (filter (\<lambda>r. r_status r = Pending) referralRewards);
                 rp = referralPaid + referralPending
             in Inr (\<lparr>totalProfit = pp + rp, planProfit = pp, referralProfit = rp,
                       sm_canWithdraw = eligible ps, sm_balance = None\<rparr>, s1)))"

section \<open>Withdrawal submission\<close>






text \<open>
  \<open>submitWithdrawal\<close>. The amount of the body is a number or absent (\<open>None\<close>, which also
  stands for a value \<open>parseFloat\<close> cannot read); 0, an empty currency and an empty address
  are falsy.
\<close>

definition withdrawalTotalProfit :: "nat \<Rightarrow> db \<Rightarrow> rat" where
  "withdrawalTotalProfit userId s =
     planProfitOf (progressesOf userId s)
       + sumAmounts (filter (\<lambda>r. referrerId r = userId \<and> r_status r = Paid) (rewards s))"


section \<open>Deposit confirmation\<close>















section \<open>Auxiliary definitions\<close>

text \<open>
  What the marking loop does to one row, given the list of rewards read: used to state the
  closed form of the loop.
\<close>

definition markRow :: "reward list \<Rightarrow> reward \<Rightarrow> reward" where
  "markRow L x = (case find (\<lambda>r. rid r = rid x) L of
                    None \<Rightarrow> x | Some r \<Rightarrow> x\<lparr>planType := Some (creditedLabel r)\<rparr>)"


text \<open>The store after reward \<open>i\<close> was paid at \<open>now\<close> and user \<open>who\<close> credited with \<open>a\<close>.\<close>

definition setPaid :: "nat \<Rightarrow> reward \<Rightarrow> reward" where
  "setPaid now r = r\<lparr>r_status := Paid, paidAt := Some now\<rparr>"

definition approved :: "nat \<Rightarrow> nat \<Rightarrow> nat \<Rightarrow> rat \<Rightarrow> db \<Rightarrow> db" where
  "approved now i who a s =
     s\<lparr>users := map (\<lambda>x. if uid x = who then credit a x else x) (users s),
       rewards := map (\<lambda>r. if rid r = i then setPaid now r else r) (rewards s)\<rparr>"


text \<open>
  The store after user \<open>u\<close> was bound to referrer \<open>ref\<close> with code \<open>c\<close>: the two
  updates of \<open>processReferral\<close>.
\<close>

definition attributed :: "nat \<Rightarrow> string \<Rightarrow> nat \<Rightarrow> db \<Rightarrow> db" where
  "attributed u c ref s =
     s\<lparr>users := map (\<lambda>x. if uid x = ref then x\<lparr>referralCount := referralCount x + 1\<rparr> else x)
                 (map (\<lambda>x. if uid x = u
                            then x\<lparr>referredByCode := Some (toUpperCase c), referredById := Some ref\<rparr>
                            else x) (users s))\<rparr>"

text \<open>
  The sums the read paths are compared with: the profit of all plan rows of a user, and the
  amounts of the paid rewards of which the user is the referrer.
\<close>

definition paidAsReferrer :: "nat \<Rightarrow> db \<Rightarrow> rat" where
  "paidAsReferrer u s =
     sum_list (map amount (filter (\<lambda>r. referrerId r = u \<and> r_status r = Paid) (rewards s)))"

definition planProfitSum :: "nat \<Rightarrow> db \<Rightarrow> rat" where
  "planProfitSum u s = sum_list (map profit (filter (\<lambda>p. p_userId p = u) (progresses s)))"




section \<open>Example stores\<close>

definition emptyDb :: db where
  "emptyDb = \<lparr>users = [], deposits = [], progresses = [], rewards = [], withdrawals = []\<rparr>"

definition newUser :: "nat \<Rightarrow> user" where
  "newUser i = \<lparr>uid = i, referralCode = None, referredById = None, referredByCode = None,
                referralCount = 0, balance = 0, totalEarned = 0\<rparr>"

text \<open>User 1 has a canonical code, user 2 has none, user 3 holds the code \<open>00000000\<close>.\<close>

definition codeDb :: db where
  "codeDb = emptyDb\<lparr>users :=
     [(newUser 1)\<lparr>referralCode := Some ''AB12CD34''\<rparr>,
      newUser 2,
      (newUser 3)\<lparr>referralCode := Some ''00000000''\<rparr>]\<rparr>"

text \<open>
  User 1 is the referrer of two paid rewards not yet marked (4 and 10), of one pending
  reward, and user 2 of another paid reward.
\<close>

definition paidReward :: "nat \<Rightarrow> nat \<Rightarrow> nat \<Rightarrow> rat \<Rightarrow> string option \<Rightarrow> reward" where
  "paidReward i referrer referred a label =
     \<lparr>rid = i, referrerId = referrer, referredUserId = referred, amount = a,
      r_planAmount = 25 * a, planType = label, r_status = Paid, paidAt = Some 7\<rparr>"



text \<open>
  User 2 was referred by user 1. Reward 1 carries the label of the bonus for the referred
  user, reward 2 an ordinary label, reward 3 is already paid, reward 4 was rejected.
\<close>

definition pendingReward :: "nat \<Rightarrow> nat \<Rightarrow> nat \<Rightarrow> rat \<Rightarrow> string option \<Rightarrow> reward" where
  "pendingReward i referrer referred a label =
     \<lparr>rid = i, referrerId = referrer, referredUserId = referred, amount = a,
      r_planAmount = 25 * a, planType = label, r_status = Pending, paidAt = None\<rparr>"

definition approvalDb :: db where
  "approvalDb = emptyDb\<lparr>
     users := [newUser 1, (newUser 2)\<lparr>referredById := Some 1\<rparr>],
     rewards := [pendingReward 1 1 2 5 (Some ''Referred User Bonus''),
                 pendingReward 2 1 2 4 (Some ''Referral Bonus ($100 Plan)''),
                 paidReward 3 1 2 10 (Some ''Referral Bonus ($250 Plan)''),
                 (pendingReward 4 1 2 2 (Some ''Referral Bonus ($50 Plan)''))\<lparr>r_status := Rejected\<rparr>]\<rparr>"

text \<open>The store after the library approval of reward 1 at time 9.\<close>

definition approvalDbBonusPaid :: db where
  "approvalDbBonusPaid = emptyDb\<lparr>
     users := [newUser 1, (newUser 2)\<lparr>referredById := Some 1, balance := 5, totalEarned := 5\<rparr>],
     rewards := [(pendingReward 1 1 2 5 (Some ''Referred User Bonus''))\<lparr>r_status := Paid, paidAt := Some 9\<rparr>,
                 pendingReward 2 1 2 4 (Some ''Referral Bonus ($100 Plan)''),
                 paidReward 3 1 2 10 (Some ''Referral Bonus ($250 Plan)''),
                 (pendingReward 4 1 2 2 (Some ''Referral Bonus ($50 Plan)''))\<lparr>r_status := Rejected\<rparr>]\<rparr>"

text \<open>
  User 2 was referred by user 1 and asks to confirm a deposit of the amount given, with
  transaction hash \<open>0xbb\<close>. In \<open>referredDb\<close> there is no deposit yet; in
  \<open>autoPayDb\<close> user 2 has an approved deposit, a pending one with the hash, and no plan.
  The other stores are the results of the confirmation handlers.
\<close>

definition mkDeposit :: "nat \<Rightarrow> nat \<Rightarrow> rat \<Rightarrow> string \<Rightarrow> deposit_status \<Rightarrow> deposit" where
  "mkDeposit i u a h st =
     \<lparr>did = i, d_userId = u, d_amount = a, d_currency = ''USDT'', d_transactionHash = h,
      d_paymentProofUrl = '''', d_status = st, d_confirmedAt = None, d_createdAt = 3\<rparr>"



definition referredDb :: db where
  "referredDb = emptyDb\<lparr>users := [newUser 1, (newUser 2)\<lparr>referredById := Some 1\<rparr>]\<rparr>"

definition planRow :: progress where
  "planRow = \<lparr>pid = 1, p_userId = 2, planAmount = 250, profit = 0, roundCount = 0,
               canWithdraw = False\<rparr>"

definition referredDbPlan :: db where
  "referredDbPlan = referredDb\<lparr>
     users := [newUser 1, (newUser 2)\<lparr>referredById := Some 1, balance := 250, totalEarned := 250\<rparr>],
     deposits := [(mkDeposit 1 2 250 ''0xbb'' DepApproved)\<lparr>d_confirmedAt := Some 9, d_createdAt := 9\<rparr>],
     progresses := [planRow]\<rparr>"

definition tierReward :: reward where
  "tierReward = \<lparr>rid = 1, referrerId = 1, referredUserId = 2, amount = 10, r_planAmount = 250,
                  planType = Some ''Referral Bonus ($250 Plan)'', r_status = Pending, paidAt = None\<rparr>"

definition referredDbApproved :: db where
  "referredDbApproved = referredDbPlan\<lparr>rewards := [tierReward]\<rparr>"



text \<open>The store in which the reward of user 1 for user 2 is already paid.\<close>

definition referredDbPaid :: db where
  "referredDbPaid = referredDbPlan\<lparr>rewards := [tierReward\<lparr>r_status := Paid, paidAt := Some 9\<rparr>]\<rparr>"

text \<open>
  Users 1 and 3 hold referral codes, user 2 has just registered; then user 2 after an
  attribution with the code of user 1, and after a second one with the code of user 3.
\<close>

definition attributionDb :: db where
  "attributionDb = emptyDb\<lparr>users :=
     [(newUser 1)\<lparr>referralCode := Some ''AAAAAAAA''\<rparr>,
      newUser 2,
      (newUser 3)\<lparr>referralCode := Some ''CCCCCCCC''\<rparr>]\<rparr>"

definition attributedOnce :: db where
  "attributedOnce = emptyDb\<lparr>users :=
     [(newUser 1)\<lparr>referralCode := Some ''AAAAAAAA'', referralCount := 1\<rparr>,
      (newUser 2)\<lparr>referredById := Some 1, referredByCode := Some ''AAAAAAAA''\<rparr>,
      (newUser 3)\<lparr>referralCode := Some ''CCCCCCCC''\<rparr>]\<rparr>"

definition attributedTwice :: db where
  "attributedTwice = emptyDb\<lparr>users :=
     [(newUser 1)\<lparr>referralCode := Some ''AAAAAAAA'', referralCount := 1\<rparr>,
      (newUser 2)\<lparr>referredById := Some 3, referredByCode := Some ''CCCCCCCC''\<rparr>,
      (newUser 3)\<lparr>referralCode := Some ''CCCCCCCC'', referralCount := 1\<rparr>]\<rparr>"

text \<open>
  User 1 has balance 254 and a plan row with profit 5; as referrer a paid, already credited
  reward of 4 and a pending reward of 10; as referred user a paid reward of 2.
\<close>

definition summaryDb :: db where
  "summaryDb = emptyDb\<lparr>
     users := [(newUser 1)\<lparr>balance := 254, totalEarned := 254\<rparr>, newUser 2, newUser 3],
     progresses := [\<lparr>pid = 1, p_userId = 1, planAmount = 250, profit = 5, roundCount = 1,
                     canWithdraw = True\<rparr>],
     rewards := [paidReward 1 1 2 4 (Some ''Referral Bonus ($100 Plan) [credited]''),
                 pendingReward 2 1 3 10 (Some ''Referral Bonus ($250 Plan)''),
                 paidReward 3 3 1 2 (Some ''Referred User Bonus'')]\<rparr>"

definition summaryOf :: "rat \<Rightarrow> rat \<Rightarrow> rat option \<Rightarrow> summary" where
  "summaryOf tot refp bal =
     \<lparr>totalProfit = tot, planProfit = 5, referralProfit = refp, sm_canWithdraw = True,
      sm_balance = bal\<rparr>"








section \<open>Properties of the referral code registry\<close>

lemmas example_defs = emptyDb_def newUser_def paidReward_def pendingReward_def

declare codeLoop.simps [simp del]

lemma chars_valid: "\<forall>c\<in>set chars. isUpperAlnum c"
  by (simp add: chars_def isUpperAlnum_def)

lemma length_chars: "length chars = 36"
  by (simp add: chars_def)

lemma chars_nth_valid: "k < 36 \<Longrightarrow> isUpperAlnum (chars ! k)"
  using chars_valid nth_mem[of k chars] by (simp add: length_chars)

lemma generate_valid: "validCode (generateReferralCode r 8)"
  by (simp add: validCode_def generateReferralCode_def list_all_iff chars_nth_valid length_chars)

lemma generate_nonempty: "generateReferralCode r 8 \<noteq> []"
  using generate_valid[of r] by (auto simp: validCode_def)

lemma codeLoop_step_fail:
  assumes "a < maxAttempts"
    and "assignCode (tf a) u (generateReferralCode (rng a) 8) s = None \<or>
         assignCode (tf a) u (generateReferralCode (rng a) 8) s = Some None"
  shows "codeLoop rng tf u a s = codeLoop rng tf u (Suc a) s"
  using assms by (auto simp: codeLoop.simps[of rng tf u a s])

lemma codeLoop_step_ok:
  assumes "a < maxAttempts"
    and "assignCode (tf a) u (generateReferralCode (rng a) 8) s = Some (Some s')"
  shows "codeLoop rng tf u a s = (Suc a, Inr (generateReferralCode (rng a) 8, s'))"
  using assms by (simp add: codeLoop.simps[of rng tf u a s] generate_nonempty)

lemma codeLoop_stop:
  "\<not> a < maxAttempts \<Longrightarrow> codeLoop rng tf u a s = (a, Inl CodeGenerationFailed)"
  by (simp add: codeLoop.simps[of rng tf u a s])

lemma assignCode_cases:
  obtains (fail) "assignCode b u c s = None \<or> assignCode b u c s = Some None"
        | (ok) s' where "assignCode b u c s = Some (Some s')"
  by (cases "assignCode b u c s") auto

text \<open>The loop calls the generator at most \<open>maxAttempts\<close> times.\<close>

lemma codeLoop_calls: "fst (codeLoop rng tf u a s) \<le> max a maxAttempts"
proof (induction "maxAttempts - a" arbitrary: a)
  case 0
  then show ?case by (simp add: codeLoop_stop)
next
  case (Suc n)
  then have lt: "a < maxAttempts" by simp
  show ?case
  proof (cases rule: assignCode_cases[of "tf a" u "generateReferralCode (rng a) 8" s])
    case fail
    have "fst (codeLoop rng tf u (Suc a) s) \<le> max (Suc a) maxAttempts"
      using Suc(1)[of "Suc a"] Suc(2) by simp
    with lt show ?thesis
      by (simp add: codeLoop_step_fail[where tf=tf and rng=rng, OF lt fail])
  next
    case (ok s')
    with lt show ?thesis by (simp add: codeLoop_step_ok[where tf=tf and rng=rng, OF lt ok])
  qed
qed

text \<open>When every remaining attempt fails or collides, the loop ends in the error.\<close>

lemma codeLoop_exhausted:
  assumes "\<forall>k. a \<le> k \<and> k < maxAttempts \<longrightarrow>
             tf k \<or> list_ex (\<lambda>x. referralCode x = Some (generateReferralCode (rng k) 8)) (users s)"
  shows "codeLoop rng tf u a s = (max a maxAttempts, Inl CodeGenerationFailed)"
  using assms
proof (induction "maxAttempts - a" arbitrary: a)
  case 0
  then show ?case by (simp add: codeLoop_stop max_def)
next
  case (Suc n)
  then have lt: "a < maxAttempts" by simp
  have "tf a \<or> list_ex (\<lambda>x. referralCode x = Some (generateReferralCode (rng a) 8)) (users s)"
    using Suc.prems lt by simp
  then have fail: "assignCode (tf a) u (generateReferralCode (rng a) 8) s = None \<or>
     assignCode (tf a) u (generateReferralCode (rng a) 8) s = Some None"
    by (auto simp: assignCode_def)
  have "codeLoop rng tf u (Suc a) s = (max (Suc a) maxAttempts, Inl CodeGenerationFailed)"
    using Suc(1)[of "Suc a"] Suc(2) Suc.prems by simp
  with lt show ?case
    by (simp add: codeLoop_step_fail[where tf=tf and rng=rng, OF lt fail] max_def)
qed

lemma codeLoop_result_valid:
  "codeLoop rng tf u a s = (n, Inr (c, s')) \<Longrightarrow> validCode c"
proof (induction "maxAttempts - a" arbitrary: a)
  case 0
  then show ?case by (simp add: codeLoop_stop)
next
  case (Suc k)
  then have lt: "a < maxAttempts" by simp
  show ?case
  proof (cases rule: assignCode_cases[of "tf a" u "generateReferralCode (rng a) 8" s])
    case fail
    then show ?thesis using Suc(1)[of "Suc a"] Suc(2) Suc.prems lt
      by (simp add: codeLoop_step_fail[where tf=tf and rng=rng, OF lt fail])
  next
    case (ok s'')
    then show ?thesis using Suc.prems lt generate_valid[of "rng a"]
      by (auto simp: codeLoop_step_ok[where tf=tf and rng=rng, OF lt ok])
  qed
qed

text \<open>
  C9. \<open>getOrCreateUserReferralCode\<close> is a total function that calls the generator at most
  10 times; every candidate has 8 characters over \<open>[0-9A-Z]\<close>; a user whose code already
  has the canonical format gets it back with no generation and no change of the store;
  otherwise, when each of the 10 attempts fails or collides with a code in use, the result
  is the exhaustion error; and a code that is returned always has the canonical format.
\<close>

theorem referral_code_bounded:
  "fst (getOrCreateUserReferralCode rng tf u s) \<le> 10
   \<and> validCode (generateReferralCode (rng a) 8)
   \<and> (findUser u s = Some usr \<and> referralCode usr = Some c \<and> validCode c
        \<longrightarrow> getOrCreateUserReferralCode rng tf u s = (0, Inr (c, s)))
   \<and> (findUser u s = Some usr \<and> (\<forall>c'. referralCode usr = Some c' \<longrightarrow> \<not> validCode c')
       \<and> (\<forall>k<10. tf k \<or> list_ex (\<lambda>x. referralCode x = Some (generateReferralCode (rng k) 8)) (users s))
        \<longrightarrow> getOrCreateUserReferralCode rng tf u s = (10, Inl CodeGenerationFailed))
   \<and> (getOrCreateUserReferralCode rng tf u s = (n, Inr (c, s')) \<longrightarrow> validCode c)"
proof (intro conjI impI)
  show "fst (getOrCreateUserReferralCode rng tf u s) \<le> 10"
    using codeLoop_calls[of rng tf u 0 s]
    by (simp add: getOrCreateUserReferralCode_def maxAttempts_def split: option.splits)
  show "validCode (generateReferralCode (rng a) 8)" by (rule generate_valid)
next
  assume "findUser u s = Some usr \<and> referralCode usr = Some c \<and> validCode c"
  then show "getOrCreateUserReferralCode rng tf u s = (0, Inr (c, s))"
    by (auto simp: getOrCreateUserReferralCode_def validCode_def)
next
  assume h: "findUser u s = Some usr \<and> (\<forall>c'. referralCode usr = Some c' \<longrightarrow> \<not> validCode c')
       \<and> (\<forall>k<10. tf k \<or> list_ex (\<lambda>x. referralCode x = Some (generateReferralCode (rng k) 8)) (users s))"
  then have "codeLoop rng tf u 0 s = (max 0 maxAttempts, Inl CodeGenerationFailed)"
    by (intro codeLoop_exhausted) (simp add: maxAttempts_def)
  with h show "getOrCreateUserReferralCode rng tf u s = (10, Inl CodeGenerationFailed)"
    by (auto simp: getOrCreateUserReferralCode_def maxAttempts_def split: option.splits)
next
  assume "getOrCreateUserReferralCode rng tf u s = (n, Inr (c, s'))"
  then show "validCode c"
    by (auto simp: getOrCreateUserReferralCode_def split: option.splits if_splits
             dest: codeLoop_result_valid)
qed

lemma generate_zero: "generateReferralCode (\<lambda>i. 0) 8 = ''00000000''"
  by (simp add: generateReferralCode_def chars_def upt_rec)

theorem referral_code_bounded_witness:
  "getOrCreateUserReferralCode (\<lambda>a i. 0) (\<lambda>a. False) 1 codeDb = (0, Inr (''AB12CD34'', codeDb))
   \<and> getOrCreateUserReferralCode (\<lambda>a i. 0) (\<lambda>a. False) 2 codeDb = (10, Inl CodeGenerationFailed)"
proof -
  have v: "validCode ''AB12CD34''"
    by (simp add: validCode_def isUpperAlnum_def)
  have h1: "findUser 1 codeDb = Some ((newUser 1)\<lparr>referralCode := Some ''AB12CD34''\<rparr>)"
    by (simp add: findUser_def codeDb_def emptyDb_def newUser_def)
  have h2: "findUser 2 codeDb = Some (newUser 2)"
    by (simp add: findUser_def codeDb_def emptyDb_def newUser_def)
  have h3: "\<forall>k<(10::nat). False \<or>
      list_ex (\<lambda>x. referralCode x = Some (generateReferralCode (\<lambda>i. 0) 8)) (users codeDb)"
    by (simp add: generate_zero codeDb_def emptyDb_def newUser_def)
  have a: "getOrCreateUserReferralCode (\<lambda>a i. 0) (\<lambda>a. False) 1 codeDb
             = (0, Inr (''AB12CD34'', codeDb))"
    using referral_code_bounded[of "\<lambda>a i. 0" "\<lambda>a. False" 1 codeDb 0
        "(newUser 1)\<lparr>referralCode := Some ''AB12CD34''\<rparr>" "''AB12CD34''"] h1 v
    by simp
  have b: "getOrCreateUserReferralCode (\<lambda>a i. 0) (\<lambda>a. False) 2 codeDb
             = (10, Inl CodeGenerationFailed)"
    using referral_code_bounded[of "\<lambda>a i. 0" "\<lambda>a. False" 2 codeDb 0 "newUser 2"] h2 h3
    by (simp add: newUser_def)
  from a b show ?thesis by simp
qed

section \<open>Properties of the reconciliation\<close>

lemma foldl_amount: "foldl (\<lambda>sum r. sum + amount r) a rs = a + sum_list (map amount rs)"
  by (induction rs arbitrary: a) (simp_all add: add.assoc)

lemma sumAmounts_sum_list: "sumAmounts rs = sum_list (map amount rs)"
  by (simp add: sumAmounts_def foldl_amount)



lemma rid_markRow: "rid (markRow L x) = rid x"
  by (simp add: markRow_def split: option.splits)









lemma findUser_map:
  assumes "\<And>x. uid (f x) = uid x"
  shows "find (\<lambda>x. uid x = u) (map (\<lambda>x. if uid x = u then f x else x) xs)
           = map_option f (find (\<lambda>x. uid x = u) xs)"
  by (induction xs) (auto simp: assms)

lemma uid_credit: "uid (credit a x) = uid x"
  by (simp add: credit_def)

lemma reconcile_nothing:
  "filter (isUncreditedPaid u) (rewards s) = [] \<Longrightarrow> reconcile u s = Inr s"
  by (simp only: reconcile_def Let_def) simp




section \<open>Properties of the approval\<close>

lemma findReward_map:
  assumes "\<And>x. rid (f x) = rid x"
  shows "find (\<lambda>x. rid x = i) (map (\<lambda>x. if rid x = i then f x else x) xs)
           = map_option f (find (\<lambda>x. rid x = i) xs)"
  by (induction xs) (auto simp: assms)

lemma find_id_distinct:
  assumes "distinct (map rid xs)"
  shows "find (\<lambda>r. rid r = i \<and> P r) xs =
           (case find (\<lambda>r. rid r = i) xs of None \<Rightarrow> None
            | Some r \<Rightarrow> if P r then Some r else None)"
  using assms
proof (induction xs)
  case Nil
  then show ?case by simp
next
  case (Cons y ys)
  from Cons.prems have "\<forall>z\<in>set ys. rid z \<noteq> rid y"
    by (force simp: image_iff)
  then have "rid y = i \<Longrightarrow> find (\<lambda>r. rid r = i \<and> P r) ys = None"
    by (auto simp: find_None_iff)
  with Cons show ?case by (auto split: option.splits)
qed

lemma findUser_ex: "findUser u s = Some usr \<Longrightarrow> list_ex (\<lambda>x. uid x = u) (users s)"
  by (auto simp: findUser_def list_ex_iff find_Some_iff)

lemma findReward_ex: "findReward i s = Some rw \<Longrightarrow> list_ex (\<lambda>x. rid x = i) (rewards s)"
  by (auto simp: findReward_def list_ex_iff find_Some_iff)

lemma approveLib_ok:
  assumes "findReward i s = Some rw" and "r_status rw \<noteq> Paid"
    and "findUser (userIdToCredit rw) s = Some usr"
  shows "approveReferralReward now i s
           = Inr (setPaid now rw, approved now i (userIdToCredit rw) (amount rw) s)"
  using assms findUser_ex[OF assms(3)] findReward_ex[OF assms(1)]
  by (simp add: approveReferralReward_def userIdToCredit_def updateUser_def updateReward_def
        approved_def setPaid_def)

lemma approveLib_fail:
  assumes "findReward i s = None \<or> (\<exists>rw. findReward i s = Some rw \<and> r_status rw = Paid)"
  shows "approveReferralReward now i s = Inl InvalidOrProcessedReward"
  using assms by (auto simp: approveReferralReward_def)

lemma approveRoute_ok:
  assumes "findReward i s = Some rw" and "r_status rw = Pending" and "i \<noteq> 0"
    and "distinct (map rid (rewards s))"
    and "findUser (referrerId rw) s = Some usr"
  shows "approveRewardRoute (Some ''admin'') (Some i) now s
           = Inr (setPaid now rw, approved now i (referrerId rw) (amount rw) s)"
proof -
  have f: "find (\<lambda>r. rid r = i \<and> r_status r = Pending) (rewards s) = Some rw"
    using assms(1,2) by (simp add: find_id_distinct[OF assms(4)] findReward_def)
  have u: "list_ex (\<lambda>x. uid x = referrerId rw) (users s)"
    using findUser_ex[OF assms(5)] .
  show ?thesis
    using f u findReward_ex[OF assms(1)] assms(3)
    by (simp add: approveRewardRoute_def updateUser_def updateReward_def approved_def setPaid_def)
qed

lemma approveRoute_fail:
  assumes "distinct (map rid (rewards s))"
    and "findReward i s = None \<or> (\<exists>rw. findReward i s = Some rw \<and> r_status rw \<noteq> Pending)"
  shows "approveRewardRoute role (Some i) now s \<in>
           {Inl Forbidden, Inl RewardIdRequired, Inl PendingRewardNotFound}"
proof -
  have "find (\<lambda>r. rid r = i \<and> r_status r = Pending) (rewards s) = None"
    using assms(2) by (auto simp: find_id_distinct[OF assms(1)] findReward_def)
  then show ?thesis by (simp add: approveRewardRoute_def)
qed

lemma approved_findUser:
  "findUser who s = Some usr \<Longrightarrow> findUser who (approved now i who a s) = Some (credit a usr)"
  by (simp add: findUser_def approved_def findUser_map[of "credit a", OF uid_credit])

lemma approved_findReward:
  "findReward i s = Some rw \<Longrightarrow> findReward i (approved now i who a s) = Some (setPaid now rw)"
  by (simp add: findReward_def approved_def findReward_map[of "setPaid now"] setPaid_def)

text \<open>
  C2 (amended). With reward ids distinct: the admin endpoint, called by an admin on a
  pending reward whose referrer exists, marks the reward paid at \<open>now\<close> and credits the
  referrer's balance and totalEarned with the amount; it fails, changing nothing, when the
  reward does not exist or is not pending. The library function on a pending reward marks it
  paid and credits \<open>userIdToCredit\<close>: the referrer, or the referred user when the label
  is "Referred User Bonus"; it fails, changing nothing, when the reward does not exist or
  is already paid. The last conjunct says what the resulting store \<open>approved\<close> is: the
  reward row paid, the credited user's balance and totalEarned increased by the amount,
  every other reward and user as before.
\<close>

theorem approval_amended:
  assumes "distinct (map rid (rewards s))"
  shows
   "(findReward i s = Some rw \<and> r_status rw = Pending \<and> i \<noteq> 0
       \<and> findUser (referrerId rw) s = Some usr
     \<longrightarrow> approveRewardRoute (Some ''admin'') (Some i) now s
           = Inr (rw\<lparr>r_status := Paid, paidAt := Some now\<rparr>,
                  approved now i (referrerId rw) (amount rw) s))
    \<and> (findReward i s = None \<or> (\<exists>r. findReward i s = Some r \<and> r_status r \<noteq> Pending)
     \<longrightarrow> isl (approveRewardRoute role (Some i) now s))
    \<and> (findReward i s = Some rw \<and> r_status rw = Pending
       \<and> findUser (userIdToCredit rw) s = Some usr
     \<longrightarrow> approveReferralReward now i s
           = Inr (rw\<lparr>r_status := Paid, paidAt := Some now\<rparr>,
                  approved now i (userIdToCredit rw) (amount rw) s))
    \<and> (findReward i s = None \<or> (\<exists>r. findReward i s = Some r \<and> r_status r = Paid)
     \<longrightarrow> approveReferralReward now i s = Inl InvalidOrProcessedReward)
    \<and> (findReward i s = Some rw \<and> findUser who s = Some usr
     \<longrightarrow> findReward i (approved now i who (amount rw) s)
           = Some (rw\<lparr>r_status := Paid, paidAt := Some now\<rparr>)
       \<and> findUser who (approved now i who (amount rw) s)
           = Some (usr\<lparr>balance := balance usr + amount rw,
                        totalEarned := totalEarned usr + amount rw\<rparr>)
       \<and> (\<forall>r\<in>set (rewards s). rid r \<noteq> i \<longrightarrow> r \<in> set (rewards (approved now i who (amount rw) s)))
       \<and> (\<forall>x\<in>set (users s). uid x \<noteq> who \<longrightarrow> x \<in> set (users (approved now i who (amount rw) s))))"
proof (intro conjI impI)
  assume "findReward i s = Some rw \<and> r_status rw = Pending \<and> i \<noteq> 0
       \<and> findUser (referrerId rw) s = Some usr"
  then show "approveRewardRoute (Some ''admin'') (Some i) now s
           = Inr (rw\<lparr>r_status := Paid, paidAt := Some now\<rparr>,
                  approved now i (referrerId rw) (amount rw) s)"
    using approveRoute_ok[of i s rw usr now] assms by (simp add: setPaid_def)
next
  assume "findReward i s = None \<or> (\<exists>r. findReward i s = Some r \<and> r_status r \<noteq> Pending)"
  then show "isl (approveRewardRoute role (Some i) now s)"
    using approveRoute_fail[OF assms, of i role now] by auto
next
  assume "findReward i s = Some rw \<and> r_status rw = Pending
       \<and> findUser (userIdToCredit rw) s = Some usr"
  then show "approveReferralReward now i s
           = Inr (rw\<lparr>r_status := Paid, paidAt := Some now\<rparr>,
                  approved now i (userIdToCredit rw) (amount rw) s)"
    using approveLib_ok[of i s rw usr now] by (simp add: setPaid_def)
next
  assume "findReward i s = None \<or> (\<exists>r. findReward i s = Some r \<and> r_status r = Paid)"
  then show "approveReferralReward now i s = Inl InvalidOrProcessedReward"
    by (rule approveLib_fail)
next
  assume h: "findReward i s = Some rw \<and> findUser who s = Some usr"
  then show "findReward i (approved now i who (amount rw) s)
           = Some (rw\<lparr>r_status := Paid, paidAt := Some now\<rparr>)"
    using approved_findReward[of i s rw now who "amount rw"] by (simp add: setPaid_def)
  from h show "findUser who (approved now i who (amount rw) s)
           = Some (usr\<lparr>balance := balance usr + amount rw,
                        totalEarned := totalEarned usr + amount rw\<rparr>)"
    using approved_findUser[of who s usr now i "amount rw"] by (simp add: credit_def)
  show "\<forall>r\<in>set (rewards s). rid r \<noteq> i \<longrightarrow> r \<in> set (rewards (approved now i who (amount rw) s))"
    by (auto simp: approved_def image_iff)
  show "\<forall>x\<in>set (users s). uid x \<noteq> who \<longrightarrow> x \<in> set (users (approved now i who (amount rw) s))"
    by (auto simp: approved_def image_iff)
qed

lemmas approve_defs = approveReferralReward_def approveRewardRoute_def findReward_def findUser_def
  updateUser_def updateReward_def credit_def userIdToCredit_def

text \<open>
  C2 as stated fails for the library function: reward 1 is pending and its referrer is
  user 1, yet approving it credits user 2, the referred user, and leaves the balance of
  user 1 at 0.
\<close>

theorem approval_credits_referred_user:
  "findReward 1 approvalDb = Some (pendingReward 1 1 2 5 (Some ''Referred User Bonus''))
   \<and> r_status (pendingReward 1 1 2 5 (Some ''Referred User Bonus'')) = Pending
   \<and> referrerId (pendingReward 1 1 2 5 (Some ''Referred User Bonus'')) = 1
   \<and> approveReferralReward 9 1 approvalDb
       = Inr ((pendingReward 1 1 2 5 (Some ''Referred User Bonus''))\<lparr>r_status := Paid, paidAt := Some 9\<rparr>,
              approvalDbBonusPaid)
   \<and> map uid (users approvalDb) = [1, 2]
   \<and> map balance (users approvalDb) = [0, 0]
   \<and> map balance (users approvalDbBonusPaid) = [0, 5]"
  by (simp add: approvalDb_def approvalDbBonusPaid_def example_defs approve_defs)

theorem approval_amended_witness:
  "approveRewardRoute (Some ''admin'') (Some 2) 9 approvalDb
      = Inr ((pendingReward 2 1 2 4 (Some ''Referral Bonus ($100 Plan)''))\<lparr>r_status := Paid, paidAt := Some 9\<rparr>,
             approved 9 2 1 4 approvalDb)
   \<and> isl (approveRewardRoute (Some ''admin'') (Some 3) 9 approvalDb)
   \<and> isl (approveRewardRoute (Some ''admin'') (Some 4) 9 approvalDb)
   \<and> isl (approveRewardRoute (Some ''admin'') (Some 7) 9 approvalDb)
   \<and> approveReferralReward 9 2 approvalDb
      = Inr ((pendingReward 2 1 2 4 (Some ''Referral Bonus ($100 Plan)''))\<lparr>r_status := Paid, paidAt := Some 9\<rparr>,
             approved 9 2 1 4 approvalDb)
   \<and> approveReferralReward 9 3 approvalDb = Inl InvalidOrProcessedReward
   \<and> approveReferralReward 9 7 approvalDb = Inl InvalidOrProcessedReward
   \<and> findUser 1 (approved 9 2 1 4 approvalDb) = Some ((newUser 1)\<lparr>balance := 4, totalEarned := 4\<rparr>)"
proof -
  let ?r2 = "pendingReward 2 1 2 4 (Some ''Referral Bonus ($100 Plan)'')"
  have d: "distinct (map rid (rewards approvalDb))"
    by (simp add: approvalDb_def example_defs)
  have f2: "findReward 2 approvalDb = Some ?r2"
    by (simp add: approvalDb_def example_defs findReward_def)
  have f3: "\<exists>r. findReward 3 approvalDb = Some r \<and> r_status r = Paid"
    by (simp add: approvalDb_def example_defs findReward_def)
  have f4: "\<exists>r. findReward 4 approvalDb = Some r \<and> r_status r \<noteq> Pending"
    by (simp add: approvalDb_def example_defs findReward_def)
  have f7: "findReward 7 approvalDb = None"
    by (simp add: approvalDb_def example_defs findReward_def)
  have u1: "findUser 1 approvalDb = Some (newUser 1)"
    by (simp add: approvalDb_def example_defs findUser_def)
  have p2: "r_status ?r2 = Pending" "referrerId ?r2 = 1" "userIdToCredit ?r2 = 1" "amount ?r2 = 4"
    by (simp_all add: example_defs userIdToCredit_def)
  note t2 = approval_amended[OF d, of 2 ?r2 "newUser 1" 9 "Some ''admin''" 1]
  note t3 = approval_amended[OF d, of 3 ?r2 "newUser 1" 9 "Some ''admin''" 1]
  note t4 = approval_amended[OF d, of 4 ?r2 "newUser 1" 9 "Some ''admin''" 1]
  note t7 = approval_amended[OF d, of 7 ?r2 "newUser 1" 9 "Some ''admin''" 1]
  have a: "approveRewardRoute (Some ''admin'') (Some 2) 9 approvalDb
      = Inr (?r2\<lparr>r_status := Paid, paidAt := Some 9\<rparr>, approved 9 2 1 4 approvalDb)"
    using t2 f2 u1 p2 by simp
  have b: "approveReferralReward 9 2 approvalDb
      = Inr (?r2\<lparr>r_status := Paid, paidAt := Some 9\<rparr>, approved 9 2 1 4 approvalDb)"
    using t2 f2 u1 p2 by simp
  have c: "findUser 1 (approved 9 2 1 4 approvalDb) = Some ((newUser 1)\<lparr>balance := 4, totalEarned := 4\<rparr>)"
    using t2 f2 u1 p2 by (simp add: newUser_def)
  have e3: "isl (approveRewardRoute (Some ''admin'') (Some 3) 9 approvalDb)"
       "approveReferralReward 9 3 approvalDb = Inl InvalidOrProcessedReward"
    using t3 f3 by auto
  have e4: "isl (approveRewardRoute (Some ''admin'') (Some 4) 9 approvalDb)"
    using t4 f4 by blast
  have e7: "isl (approveRewardRoute (Some ''admin'') (Some 7) 9 approvalDb)"
       "approveReferralReward 9 7 approvalDb = Inl InvalidOrProcessedReward"
    using t7 f7 by auto
  from a b c e3 e4 e7 show ?thesis by blast
qed

text \<open>
  The library function tests only for the status paid: a rejected reward is approved and
  credited like a pending one.
\<close>

lemma approval_lib_accepts_rejected:
  "isl (approveRewardRoute (Some ''admin'') (Some 4) 9 approvalDb)
   \<and> approveReferralReward 9 4 approvalDb
       = Inr ((pendingReward 4 1 2 2 (Some ''Referral Bonus ($50 Plan)''))\<lparr>r_status := Paid, paidAt := Some 9\<rparr>,
              approved 9 4 1 2 approvalDb)"
  by (simp add: approvalDb_def example_defs approve_defs approved_def setPaid_def)


section \<open>Who pays a reward\<close>


lemma updateReward_users: "updateReward i f s = Inr s' \<Longrightarrow> users s' = users s"
  by (auto simp: updateReward_def split: if_splits)


lemma createReward_rewards:
  "createReward r s = (r', s') \<Longrightarrow>
     r' = r\<lparr>rid := nextId (map rid (rewards s))\<rparr> \<and> rewards s' = rewards s @ [r'] \<and> users s' = users s"
  by (auto simp: createReward_def Let_def)





















lemma library_example:
  "processReferralReward 2 referredDbPlan = Inr (Some tierReward, referredDbPlan\<lparr>rewards := [tierReward]\<rparr>)"
  by code_simp


section \<open>Properties of the reward computation\<close>

lemma findUser_uid: "findUser i s = Some usr \<Longrightarrow> uid usr = i"
  by (auto simp: findUser_def find_Some_iff)

lemma processReferralReward_paid:
  assumes "findUser u s = Some usr" and "referredById usr = Some ref"
    and "list_ex (\<lambda>r. referredUserId r = u \<and> referrerId r = ref \<and> r_status r = Paid) (rewards s)"
  shows "processReferralReward u s = Inr (None, s)"
  using assms
  by (auto simp: processReferralReward_def split: option.splits dest: findUser_uid)

lemma processReferralReward_created:
  assumes "processReferralReward u s = Inr (Some r, s')"
  shows "s' = s\<lparr>rewards := rewards s @ [r]\<rparr> \<and> r_status r = Pending \<and> referredUserId r = u
         \<and> referredById (the (findUser u s)) = Some (referrerId r)
         \<and> rid r = nextId (map rid (rewards s))
         \<and> \<not> list_ex (\<lambda>x. referredUserId x = u \<and> referrerId x = referrerId r \<and> r_status x = Paid) (rewards s)"
  using assms
  by (auto simp: processReferralReward_def createReward_def Let_def
      split: option.splits if_splits dest: findUser_uid)

lemma processReferralReward_again:
  assumes "processReferralReward u s = Inr (Some r, s')"
  shows "processReferralReward u s'
           = Inr (Some (r\<lparr>rid := nextId (map rid (rewards s'))\<rparr>),
                  s'\<lparr>rewards := rewards s' @ [r\<lparr>rid := nextId (map rid (rewards s'))\<rparr>]\<rparr>)"
proof -
  from assms obtain usr ref referrer d p where
    f: "findUser u s = Some usr" "referredById usr = Some ref" "ref \<noteq> 0"
       "findUser ref s = Some referrer"
       "\<not> list_ex (\<lambda>r. referredUserId r = u \<and> referrerId r = uid referrer \<and> r_status r = Paid) (rewards s)"
       "latestBy did (filter (\<lambda>d. d_userId d = u \<and> d_status d = DepApproved) (deposits s)) = Some d"
       "latestBy pid (filter (\<lambda>p. p_userId p = u) (progresses s)) = Some p"
       "\<not> planReward (intToString (planAmount p)) \<le> 0"
    and r: "r = \<lparr>rid = nextId (map rid (rewards s)), referrerId = uid referrer,
                referredUserId = u, amount = planReward (intToString (planAmount p)),
                r_planAmount = of_int (planAmount p),
                planType = Some (planLabel (intToString (planAmount p))),
                r_status = Pending, paidAt = None\<rparr>"
    and s': "s' = s\<lparr>rewards := rewards s @ [r]\<rparr>"
    by (auto simp: processReferralReward_def createReward_def Let_def
        split: option.splits if_splits)
  have st: "r_status r = Pending" by (simp add: r)
  show ?thesis
    using f st unfolding s'
    by (simp add: processReferralReward_def createReward_def Let_def findUser_def)
       (simp add: r)
qed

text \<open>
  C4 (amended). When a paid reward for the pair (referrer, referred user) exists,
  \<open>processReferralReward\<close> returns null and the store is unchanged. When it creates a
  reward, no paid reward for the pair existed, the new row is pending and is appended to
  the table, and a second invocation on the resulting store succeeds again and appends a
  second pending row that differs from the first in its id only.
\<close>

theorem reward_creation_guard:
  "(findUser u s = Some usr \<and> referredById usr = Some ref
      \<and> list_ex (\<lambda>r. referredUserId r = u \<and> referrerId r = ref \<and> r_status r = Paid) (rewards s)
     \<longrightarrow> processReferralReward u s = Inr (None, s))
   \<and> (processReferralReward u s = Inr (Some r, s') \<longrightarrow>
         r_status r = Pending \<and> referredUserId r = u \<and> rewards s' = rewards s @ [r]
         \<and> \<not> list_ex (\<lambda>x. referredUserId x = u \<and> referrerId x = referrerId r \<and> r_status x = Paid)
                 (rewards s)
         \<and> processReferralReward u s'
             = Inr (Some (r\<lparr>rid := nextId (map rid (rewards s'))\<rparr>),
                    s'\<lparr>rewards := rewards s @ [r, r\<lparr>rid := nextId (map rid (rewards s'))\<rparr>]\<rparr>))"
proof (intro conjI impI)
  assume "findUser u s = Some usr \<and> referredById usr = Some ref
      \<and> list_ex (\<lambda>r. referredUserId r = u \<and> referrerId r = ref \<and> r_status r = Paid) (rewards s)"
  then show "processReferralReward u s = Inr (None, s)"
    using processReferralReward_paid[of u s usr ref] by blast
next
  assume a: "processReferralReward u s = Inr (Some r, s')"
  note c = processReferralReward_created[OF a]
  from c show "r_status r = Pending" "referredUserId r = u" by simp_all
  from c have "s' = s\<lparr>rewards := rewards s @ [r]\<rparr>" by blast
  then show rs: "rewards s' = rewards s @ [r]" by simp
  from c show "\<not> list_ex (\<lambda>x. referredUserId x = u \<and> referrerId x = referrerId r \<and> r_status x = Paid)
                 (rewards s)" by blast
  show "processReferralReward u s'
             = Inr (Some (r\<lparr>rid := nextId (map rid (rewards s'))\<rparr>),
                    s'\<lparr>rewards := rewards s @ [r, r\<lparr>rid := nextId (map rid (rewards s'))\<rparr>]\<rparr>)"
    using processReferralReward_again[OF a] by (simp add: rs)
qed

text \<open>
  C4 as stated fails: the reward table is empty, and two invocations for user 2 leave two
  pending rows for the pair (1, 2).
\<close>

theorem reward_created_twice:
  "processReferralReward 2 referredDbPlan = Inr (Some tierReward, referredDbApproved)
   \<and> processReferralReward 2 referredDbApproved
       = Inr (Some (tierReward\<lparr>rid := 2\<rparr>),
              referredDbApproved\<lparr>rewards := [tierReward, tierReward\<lparr>rid := 2\<rparr>]\<rparr>)
   \<and> rewards referredDbPlan = []
   \<and> map referrerId [tierReward, tierReward\<lparr>rid := 2\<rparr>] = [1, 1]
   \<and> map referredUserId [tierReward, tierReward\<lparr>rid := 2\<rparr>] = [2, 2]
   \<and> map r_status [tierReward, tierReward\<lparr>rid := 2\<rparr>] = [Pending, Pending]"
  by code_simp

lemma paid_guard_example:
  "findUser 2 referredDbPaid = Some ((newUser 2)\<lparr>referredById := Some 1, balance := 250, totalEarned := 250\<rparr>)
   \<and> list_ex (\<lambda>r. referredUserId r = 2 \<and> referrerId r = 1 \<and> r_status r = Paid) (rewards referredDbPaid)"
  by code_simp

theorem reward_creation_guard_witness:
  "processReferralReward 2 referredDbPaid = Inr (None, referredDbPaid)
   \<and> processReferralReward 2 referredDbPlan = Inr (Some tierReward, referredDbApproved)
   \<and> processReferralReward 2 referredDbApproved
       = Inr (Some (tierReward\<lparr>rid := 2\<rparr>),
              referredDbApproved\<lparr>rewards := [tierReward, tierReward\<lparr>rid := 2\<rparr>]\<rparr>)"
proof -
  have a: "processReferralReward 2 referredDbPaid = Inr (None, referredDbPaid)"
    using reward_creation_guard[of 2 referredDbPaid
        "(newUser 2)\<lparr>referredById := Some 1, balance := 250, totalEarned := 250\<rparr>" 1]
      paid_guard_example
    by (simp only: user.simps newUser_def simp_thms)
  have le: "processReferralReward 2 referredDbPlan = Inr (Some tierReward, referredDbApproved)"
    using library_example by (simp only: referredDbApproved_def)
  have n: "nextId (map rid (rewards referredDbApproved)) = 2"
    by (simp add: referredDbApproved_def tierReward_def nextId_def)
  have e: "rewards referredDbPlan = []"
    by (simp add: referredDbPlan_def referredDb_def emptyDb_def)
  from reward_creation_guard[of 2 referredDbPlan _ _ tierReward referredDbApproved] le
  have "processReferralReward 2 referredDbApproved
       = Inr (Some (tierReward\<lparr>rid := nextId (map rid (rewards referredDbApproved))\<rparr>),
              referredDbApproved\<lparr>rewards := rewards referredDbPlan @
                 [tierReward, tierReward\<lparr>rid := nextId (map rid (rewards referredDbApproved))\<rparr>]\<rparr>)"
    by blast
  then have b: "processReferralReward 2 referredDbApproved
       = Inr (Some (tierReward\<lparr>rid := 2\<rparr>),
              referredDbApproved\<lparr>rewards := [tierReward, tierReward\<lparr>rid := 2\<rparr>]\<rparr>)"
    by (simp only: n e append_Nil)
  from a le b show ?thesis by blast
qed

section \<open>Properties of the attribution\<close>

lemma find_uid_map:
  assumes "\<And>x. uid (h x) = uid x"
  shows "find (\<lambda>x. uid x = u) (map h xs) = map_option h (find (\<lambda>x. uid x = u) xs)"
  by (induction xs) (auto simp: assms)

lemma list_ex_uid_map:
  assumes "\<And>x. uid (h x) = uid x"
  shows "list_ex (\<lambda>x. uid x = k) (map h xs) = list_ex (\<lambda>x. uid x = k) xs"
  by (induction xs) (auto simp: assms)

lemma processReferral_none:
  "code = None \<or> code = Some [] \<Longrightarrow> processReferral u code s = Inr (None, s)"
  by (auto simp: processReferral_def)

lemma processReferral_unknown:
  "find (\<lambda>x. referralCode x = Some (toUpperCase c) \<and> uid x \<noteq> u) (users s) = None
     \<Longrightarrow> processReferral u (Some c) s = Inr (None, s)"
  by (simp add: processReferral_def)

lemma processReferral_found:
  assumes "c \<noteq> []"
    and "find (\<lambda>x. referralCode x = Some (toUpperCase c) \<and> uid x \<noteq> u) (users s) = Some referrer"
    and "findUser u s = Some usr"
  shows "processReferral u (Some c) s = Inr (Some (uid referrer), attributed u c (uid referrer) s)"
proof -
  have e1: "list_ex (\<lambda>x. uid x = u) (users s)"
    using assms(3) by (auto simp: findUser_def list_ex_iff find_Some_iff)
  have "referrer \<in> set (users s)"
    using assms(2) by (auto simp: find_Some_iff)
  then have "list_ex (\<lambda>x. uid x = uid referrer) (users s)"
    by (auto simp: list_ex_iff)
  then have e2: "list_ex (\<lambda>x. uid x = uid referrer)
        (map (\<lambda>x. if uid x = u
                  then x\<lparr>referredByCode := Some (toUpperCase c), referredById := Some (uid referrer)\<rparr>
                  else x) (users s))"
    by (simp add: list_ex_uid_map)
  show ?thesis
    using assms(1,2) e1 e2
    by (simp add: processReferral_def updateUser_def attributed_def)
qed

lemma attributed_findUser:
  assumes "findUser u s = Some usr" and "ref \<noteq> u"
  shows "findUser u (attributed u c ref s)
           = Some (usr\<lparr>referredByCode := Some (toUpperCase c), referredById := Some ref\<rparr>)"
proof -
  let ?h = "\<lambda>x. (if uid x = ref then x\<lparr>referralCount := referralCount x + 1\<rparr> else x)"
  let ?g = "\<lambda>x. (if uid x = u
                  then x\<lparr>referredByCode := Some (toUpperCase c), referredById := Some ref\<rparr>
                  else x)"
  have "find (\<lambda>x. uid x = u) (map ?h (map ?g (users s)))
          = map_option ?h (map_option ?g (find (\<lambda>x. uid x = u) (users s)))"
    by (simp add: find_uid_map option.map_comp)
  moreover have "uid usr = u" using assms(1) by (rule findUser_uid)
  ultimately show ?thesis using assms by (simp add: findUser_def attributed_def)
qed

lemma attributed_findReferrer:
  assumes "findUser ref s = Some r0" and "ref \<noteq> u"
  shows "findUser ref (attributed u c ref s) = Some (r0\<lparr>referralCount := referralCount r0 + 1\<rparr>)"
proof -
  let ?h = "\<lambda>x. (if uid x = ref then x\<lparr>referralCount := referralCount x + 1\<rparr> else x)"
  let ?g = "\<lambda>x. (if uid x = u
                  then x\<lparr>referredByCode := Some (toUpperCase c), referredById := Some ref\<rparr>
                  else x)"
  have "find (\<lambda>x. uid x = ref) (map ?h (map ?g (users s)))
          = map_option ?h (map_option ?g (find (\<lambda>x. uid x = ref) (users s)))"
    by (simp add: find_uid_map option.map_comp)
  moreover have "uid r0 = ref" using assms(1) by (rule findUser_uid)
  ultimately show ?thesis using assms by (simp add: findUser_def attributed_def)
qed

text \<open>
  C5 (amended). \<open>processReferral\<close> changes nothing when the code is absent, empty or
  held by no other user. When the upper-cased code is held by another user, the referrer,
  it sets \<open>referredById\<close> and \<open>referredByCode\<close> of the user to that referrer and code,
  whatever they were before, increments the referrer's \<open>referralCount\<close> and leaves every
  other user alone.
\<close>

theorem attribution_overwrites:
  "(code = None \<or> code = Some [] \<longrightarrow> processReferral u code s = Inr (None, s))
   \<and> (find (\<lambda>x. referralCode x = Some (toUpperCase c) \<and> uid x \<noteq> u) (users s) = None
        \<longrightarrow> processReferral u (Some c) s = Inr (None, s))
   \<and> (c \<noteq> []
        \<and> find (\<lambda>x. referralCode x = Some (toUpperCase c) \<and> uid x \<noteq> u) (users s) = Some referrer
        \<and> findUser u s = Some usr \<and> findUser (uid referrer) s = Some r0
        \<longrightarrow> processReferral u (Some c) s
              = Inr (Some (uid referrer), attributed u c (uid referrer) s)
          \<and> findUser u (attributed u c (uid referrer) s)
              = Some (usr\<lparr>referredByCode := Some (toUpperCase c),
                           referredById := Some (uid referrer)\<rparr>)
          \<and> findUser (uid referrer) (attributed u c (uid referrer) s)
              = Some (r0\<lparr>referralCount := referralCount r0 + 1\<rparr>)
          \<and> (\<forall>x\<in>set (users s). uid x \<noteq> u \<and> uid x \<noteq> uid referrer
                 \<longrightarrow> x \<in> set (users (attributed u c (uid referrer) s))))"
proof (intro conjI impI)
  assume "code = None \<or> code = Some []"
  then show "processReferral u code s = Inr (None, s)" by (rule processReferral_none)
next
  assume "find (\<lambda>x. referralCode x = Some (toUpperCase c) \<and> uid x \<noteq> u) (users s) = None"
  then show "processReferral u (Some c) s = Inr (None, s)" by (rule processReferral_unknown)
next
  assume h: "c \<noteq> []
        \<and> find (\<lambda>x. referralCode x = Some (toUpperCase c) \<and> uid x \<noteq> u) (users s) = Some referrer
        \<and> findUser u s = Some usr \<and> findUser (uid referrer) s = Some r0"
  then have ne: "uid referrer \<noteq> u" by (auto simp: find_Some_iff)
  from h show "processReferral u (Some c) s
              = Inr (Some (uid referrer), attributed u c (uid referrer) s)"
    using processReferral_found[of c u s referrer usr] by blast
  from h ne show "findUser u (attributed u c (uid referrer) s)
              = Some (usr\<lparr>referredByCode := Some (toUpperCase c),
                           referredById := Some (uid referrer)\<rparr>)"
    using attributed_findUser[of u s usr "uid referrer" c] by blast
  from h ne show "findUser (uid referrer) (attributed u c (uid referrer) s)
              = Some (r0\<lparr>referralCount := referralCount r0 + 1\<rparr>)"
    using attributed_findReferrer[of "uid referrer" s r0 u c] by blast
  show "\<forall>x\<in>set (users s). uid x \<noteq> u \<and> uid x \<noteq> uid referrer
                 \<longrightarrow> x \<in> set (users (attributed u c (uid referrer) s))"
    by (auto simp: attributed_def image_iff)
qed

text \<open>
  C5 as stated fails: after a first attribution of user 2 to user 1, a second one with the
  code of user 3 replaces the referrer 1 by 3 and increments the count of user 3.
\<close>

theorem attribution_second_call_overwrites:
  "processReferral 2 (Some ''aaaaaaaa'') attributionDb = Inr (Some 1, attributedOnce)
   \<and> processReferral 2 (Some ''cccccccc'') attributedOnce = Inr (Some 3, attributedTwice)
   \<and> map uid (users attributedTwice) = [1, 2, 3]
   \<and> map referredById (users attributedOnce) = [None, Some 1, None]
   \<and> map referredById (users attributedTwice) = [None, Some 3, None]
   \<and> map referralCount (users attributedOnce) = [1, 0, 0]
   \<and> map referralCount (users attributedTwice) = [1, 0, 1]"
  by code_simp

lemma attribution_lookups:
  "find (\<lambda>x. referralCode x = Some (toUpperCase ''cccccccc'') \<and> uid x \<noteq> 2) (users attributedOnce)
     = Some ((newUser 3)\<lparr>referralCode := Some ''CCCCCCCC''\<rparr>)"
  "findUser 2 attributedOnce
     = Some ((newUser 2)\<lparr>referredById := Some 1, referredByCode := Some ''AAAAAAAA''\<rparr>)"
  "findUser 3 attributedOnce = Some ((newUser 3)\<lparr>referralCode := Some ''CCCCCCCC''\<rparr>)"
  "find (\<lambda>x. referralCode x = Some (toUpperCase ''zzzzzzzz'') \<and> uid x \<noteq> 2) (users attributedOnce)
     = None"
  "uid ((newUser 3)\<lparr>referralCode := Some ''CCCCCCCC''\<rparr>) = 3"
  "toUpperCase ''cccccccc'' = ''CCCCCCCC''"
  by code_simp+

theorem attribution_overwrites_witness:
  "processReferral 2 None attributedOnce = Inr (None, attributedOnce)
   \<and> processReferral 2 (Some ''zzzzzzzz'') attributedOnce = Inr (None, attributedOnce)
   \<and> processReferral 2 (Some ''cccccccc'') attributedOnce
       = Inr (Some 3, attributed 2 ''cccccccc'' 3 attributedOnce)
   \<and> findUser 2 (attributed 2 ''cccccccc'' 3 attributedOnce)
       = Some ((newUser 2)\<lparr>referredById := Some 3, referredByCode := Some ''CCCCCCCC''\<rparr>)
   \<and> findUser 3 (attributed 2 ''cccccccc'' 3 attributedOnce)
       = Some ((newUser 3)\<lparr>referralCode := Some ''CCCCCCCC'', referralCount := 1\<rparr>)"
proof -
  note t = attribution_overwrites[of None 2 attributedOnce "''zzzzzzzz''"]
  have a: "processReferral 2 None attributedOnce = Inr (None, attributedOnce)"
    using t by blast
  have b: "processReferral 2 (Some ''zzzzzzzz'') attributedOnce = Inr (None, attributedOnce)"
    using t attribution_lookups(4) by blast
  have ne: "''cccccccc'' \<noteq> []" by simp
  note u = attribution_overwrites[of None 2 attributedOnce "''cccccccc''"
      "(newUser 3)\<lparr>referralCode := Some ''CCCCCCCC''\<rparr>"
      "(newUser 2)\<lparr>referredById := Some 1, referredByCode := Some ''AAAAAAAA''\<rparr>"
      "(newUser 3)\<lparr>referralCode := Some ''CCCCCCCC''\<rparr>",
      unfolded attribution_lookups(5)]
  have c: "processReferral 2 (Some ''cccccccc'') attributedOnce
       = Inr (Some 3, attributed 2 ''cccccccc'' 3 attributedOnce)"
    using u ne attribution_lookups(1,2,3) by blast
  have d: "findUser 2 (attributed 2 ''cccccccc'' 3 attributedOnce)
       = Some ((newUser 2)\<lparr>referredById := Some 1, referredByCode := Some ''AAAAAAAA''\<rparr>
                \<lparr>referredByCode := Some (toUpperCase ''cccccccc''), referredById := Some 3\<rparr>)"
    using u ne attribution_lookups(1,2,3) by blast
  have e: "findUser 3 (attributed 2 ''cccccccc'' 3 attributedOnce)
       = Some ((newUser 3)\<lparr>referralCode := Some ''CCCCCCCC''\<rparr>
                \<lparr>referralCount := referralCount ((newUser 3)\<lparr>referralCode := Some ''CCCCCCCC''\<rparr>) + 1\<rparr>)"
    using u ne attribution_lookups(1,2,3) by blast
  from d have d': "findUser 2 (attributed 2 ''cccccccc'' 3 attributedOnce)
       = Some ((newUser 2)\<lparr>referredById := Some 3, referredByCode := Some ''CCCCCCCC''\<rparr>)"
    by (simp add: attribution_lookups(6) newUser_def)
  from e have e': "findUser 3 (attributed 2 ''cccccccc'' 3 attributedOnce)
       = Some ((newUser 3)\<lparr>referralCode := Some ''CCCCCCCC'', referralCount := 1\<rparr>)"
    by (simp add: newUser_def)
  from a b c d' e' show ?thesis by blast
qed

section \<open>Properties of the account summaries\<close>

lemma foldl_profit: "foldl (\<lambda>sum p. sum + profit p) a ps = a + sum_list (map profit ps)"
  by (induction ps arbitrary: a) (simp_all add: add.assoc)

lemma planProfitOf_sum_list: "planProfitOf ps = sum_list (map profit ps)"
  by (simp add: planProfitOf_def foldl_profit)

lemma updateReward_frame:
  "updateReward i f s = Inr s' \<Longrightarrow>
     progresses s' = progresses s \<and> deposits s' = deposits s \<and> users s' = users s"
  by (auto simp: updateReward_def split: if_splits)

lemma updateUser_frame:
  "updateUser i f s = Inr s' \<Longrightarrow>
     progresses s' = progresses s \<and> deposits s' = deposits s \<and> rewards s' = rewards s"
  by (auto simp: updateUser_def split: if_splits)

lemma markCredited_frame:
  "markCredited L s = Inr s' \<Longrightarrow>
     progresses s' = progresses s \<and> deposits s' = deposits s \<and> users s' = users s"
proof (induction L arbitrary: s)
  case Nil
  then show ?case by simp
next
  case (Cons r rs)
  then show ?case
    by (auto split: sum.splits dest!: updateReward_frame)
qed

lemma reconcile_frame:
  assumes "reconcile u s = Inr s'"
  shows "progresses s' = progresses s \<and> deposits s' = deposits s"
proof (cases "filter (isUncreditedPaid u) (rewards s) = []")
  case True
  with assms show ?thesis by (simp add: reconcile_nothing)
next
  case False
  let ?L = "filter (isUncreditedPaid u) (rewards s)"
  show ?thesis
  proof (cases "0 < sumAmounts ?L")
    case True
    from assms False True obtain s1 where
      u: "updateUser u (credit (sumAmounts ?L)) s = Inr s1" and m: "markCredited ?L s1 = Inr s'"
      by (simp add: reconcile_def Let_def split: sum.splits)
    from updateUser_frame[OF u] markCredited_frame[OF m] show ?thesis by simp
  next
    case F: False
    from assms False F have m: "markCredited ?L s = Inr s'"
      by (simp add: reconcile_def Let_def)
    from markCredited_frame[OF m] show ?thesis by simp
  qed
qed

lemma ensureProgress_profit:
  "sum_list (map profit (progressesOf u (ensureProgress u s)))
     = sum_list (map profit (progressesOf u s))"
  by (auto simp: ensureProgress_def upsertProgress_def newProgress_def progressesOf_def split: option.splits)

lemma progressesOf_cong: "progresses s' = progresses s \<Longrightarrow> progressesOf u s' = progressesOf u s"
  by (simp add: progressesOf_def)

lemma filter_paid_either:
  "filter (\<lambda>r. r_status r = Paid)
     (filter (\<lambda>r. (referrerId r = u \<or> referredUserId r = u) \<and> r_status r = Paid) rs)
   = filter (\<lambda>r. (referrerId r = u \<or> referredUserId r = u) \<and> r_status r = Paid) rs"
  by (induction rs) auto

lemma filter_paid_of_either:
  "filter (\<lambda>r. referrerId r = u \<and> (r_status r = Pending \<or> r_status r = Paid) \<and> r_status r = Paid) rs
   = filter (\<lambda>r. referrerId r = u \<and> r_status r = Paid) rs"
  by (induction rs) auto

lemma filter_pending_of_either:
  "filter (\<lambda>r. referrerId r = u \<and> (r_status r = Pending \<or> r_status r = Paid) \<and> r_status r = Pending) rs
   = filter (\<lambda>r. referrerId r = u \<and> r_status r = Pending) rs"
  by (induction rs) auto

lemma filter_paid_referrer:
  "filter (\<lambda>r. r_status r = Paid \<and> referrerId r = u) rs
   = filter (\<lambda>r. referrerId r = u \<and> r_status r = Paid) rs"
  by (induction rs) auto

lemma paidEither_total:
  assumes "u \<noteq> 0" and "allProgressPaidEither (Some u) s = Inr (sm, s')"
  shows "s' = s \<and> totalProfit sm = planProfitSum u s
            + sum_list (map amount (filter (\<lambda>r. (referrerId r = u \<or> referredUserId r = u)
                                              \<and> r_status r = Paid) (rewards s)))"
proof -
  from assms have "s' = s" and
    "sm = \<lparr>totalProfit = planProfitOf (progressesOf u s)
             + sumAmounts (filter (\<lambda>r. (referrerId r = u \<or> referredUserId r = u)
                                              \<and> r_status r = Paid) (rewards s)),
           planProfit = planProfitOf (progressesOf u s),
           referralProfit = sumAmounts (filter (\<lambda>r. (referrerId r = u \<or> referredUserId r = u)
                                              \<and> r_status r = Paid) (rewards s)),
           sm_canWithdraw = eligible (progressesOf u s), sm_balance = None\<rparr>"
    by (auto simp add: allProgressPaidEither_def Let_def filter_paid_either)
  then show ?thesis
    by (simp add: planProfitOf_sum_list sumAmounts_sum_list planProfitSum_def progressesOf_def)
qed

lemma paidReferrer_total:
  assumes "u \<noteq> 0" and "allProgressPaidReferrer (Some u) s = Inr (sm, s')"
  shows "s' = s \<and> totalProfit sm = planProfitSum u s + paidAsReferrer u s"
proof -
  from assms have "s' = s" and
    "sm = \<lparr>totalProfit = planProfitOf (progressesOf u s)
             + sumAmounts (filter (\<lambda>r. referrerId r = u \<and> r_status r = Paid) (rewards s)),
           planProfit = planProfitOf (progressesOf u s),
           referralProfit = sumAmounts (filter (\<lambda>r. referrerId r = u \<and> r_status r = Paid) (rewards s)),
           sm_canWithdraw = eligible (progressesOf u s), sm_balance = None\<rparr>"
    by (auto simp add: allProgressPaidReferrer_def Let_def)
  then show ?thesis
    by (simp add: planProfitOf_sum_list sumAmounts_sum_list planProfitSum_def paidAsReferrer_def
        progressesOf_def)
qed

lemma planProfit_ensured:
  "planProfitOf (progressesOf u (ensureProgress u s)) = planProfitSum u s"
  by (simp add: planProfitOf_sum_list ensureProgress_profit planProfitSum_def progressesOf_def[symmetric])

lemma pendingInclusive_eq:
  assumes "u \<noteq> 0"
  shows "allProgressPendingInclusive (Some u) s =
    Inr (\<lparr>totalProfit = planProfitOf (progressesOf u (ensureProgress u s))
             + (sumAmounts (filter (\<lambda>r. referrerId r = u \<and> r_status r = Paid) (rewards s))
                + sumAmounts (filter (\<lambda>r. referrerId r = u \<and> r_status r = Pending) (rewards s))),
          planProfit = planProfitOf (progressesOf u (ensureProgress u s)),
          referralProfit = sumAmounts (filter (\<lambda>r. referrerId r = u \<and> r_status r = Paid) (rewards s))
                + sumAmounts (filter (\<lambda>r. referrerId r = u \<and> r_status r = Pending) (rewards s)),
          sm_canWithdraw = eligible (progressesOf u (ensureProgress u s)), sm_balance = None\<rparr>,
         ensureProgress u s)"
  using assms
  by (simp add: allProgressPendingInclusive_def Let_def filter_paid_of_either
          filter_pending_of_either)

lemma pendingInclusive_total:
  assumes "u \<noteq> 0" and "allProgressPendingInclusive (Some u) s = Inr (sm, s')"
  shows "s' = ensureProgress u s \<and> totalProfit sm = planProfitSum u s + paidAsReferrer u s
            + sum_list (map amount (filter (\<lambda>r. referrerId r = u \<and> r_status r = Pending) (rewards s)))"
proof -
  from assms(2) have s': "s' = ensureProgress u s" and
    "totalProfit sm = planProfitOf (progressesOf u (ensureProgress u s))
             + (sumAmounts (filter (\<lambda>r. referrerId r = u \<and> r_status r = Paid) (rewards s))
                + sumAmounts (filter (\<lambda>r. referrerId r = u \<and> r_status r = Pending) (rewards s)))"
    unfolding pendingInclusive_eq[OF assms(1)] by auto
  then have "totalProfit sm = planProfitSum u s
             + (paidAsReferrer u s
                + sum_list (map amount (filter (\<lambda>r. referrerId r = u \<and> r_status r = Pending) (rewards s))))"
    by (simp only: planProfit_ensured sumAmounts_sum_list paidAsReferrer_def)
  with s' show ?thesis by (simp only: add.assoc simp_thms)
qed

lemma reconciling_total:
  assumes "u \<noteq> 0" and "allProgressReconciling (Some u) s = Inr (sm, s')"
  shows "\<exists>s1. reconcile u s = Inr s1 \<and> s' = ensureProgress u s1
          \<and> totalProfit sm = (case findUser u s1 of None \<Rightarrow> 0 | Some usr \<Rightarrow> balance usr)
                               + planProfitSum u s"
proof (cases "reconcile u s")
  case (Inl e)
  with assms show ?thesis by (simp add: allProgressReconciling_def)
next
  case (Inr s1)
  have p: "planProfitSum u s1 = planProfitSum u s"
    using reconcile_frame[OF Inr] by (simp add: planProfitSum_def)
  have "allProgressReconciling (Some u) s =
     Inr (\<lparr>totalProfit = (case findUser u s1 of None \<Rightarrow> 0 | Some usr \<Rightarrow> balance usr)
                           + planProfitOf (progressesOf u (ensureProgress u s1)),
           planProfit = planProfitOf (progressesOf u (ensureProgress u s1)),
           referralProfit = sumAmounts (filter (\<lambda>r. r_status r = Paid \<and> referrerId r = u) (rewards s1)),
           sm_canWithdraw = eligible (progressesOf u (ensureProgress u s1)),
           sm_balance = Some (case findUser u s1 of None \<Rightarrow> 0 | Some usr \<Rightarrow> balance usr)\<rparr>,
          ensureProgress u s1)"
    using assms(1) Inr by (simp add: allProgressReconciling_def Let_def)
  with assms(2) have "s' = ensureProgress u s1" and
    "totalProfit sm = (case findUser u s1 of None \<Rightarrow> 0 | Some usr \<Rightarrow> balance usr)
         + planProfitOf (progressesOf u (ensureProgress u s1))"
    by auto
  then show ?thesis
    using Inr by (simp only: planProfit_ensured p) blast
qed

text \<open>
  C6 (amended). For a user id other than 0: the reconciling handler returns
  balance (after its reconciliation) + plan profit; the first handler returns plan profit +
  the paid rewards of which the user is referrer or referred user; the third handler and the
  check of the withdrawal handler use plan profit + the paid rewards of which the user is
  referrer; the pending-inclusive handler adds the pending rewards to that. Only the first
  of these formulas contains the balance.
\<close>

theorem total_profit_formulas:
  assumes "u \<noteq> 0"
  shows
   "(allProgressReconciling (Some u) s = Inr (sm, s') \<longrightarrow>
       (\<exists>s1. reconcile u s = Inr s1 \<and> s' = ensureProgress u s1
          \<and> totalProfit sm = (case findUser u s1 of None \<Rightarrow> 0 | Some usr \<Rightarrow> balance usr)
                               + planProfitSum u s))
    \<and> (allProgressPaidEither (Some u) s = Inr (sm, s') \<longrightarrow>
         s' = s \<and> totalProfit sm = planProfitSum u s
            + sum_list (map amount (filter (\<lambda>r. (referrerId r = u \<or> referredUserId r = u)
                                              \<and> r_status r = Paid) (rewards s))))
    \<and> (allProgressPaidReferrer (Some u) s = Inr (sm, s') \<longrightarrow>
         s' = s \<and> totalProfit sm = planProfitSum u s + paidAsReferrer u s)
    \<and> (allProgressPendingInclusive (Some u) s = Inr (sm, s') \<longrightarrow>
         s' = ensureProgress u s \<and> totalProfit sm = planProfitSum u s + paidAsReferrer u s
            + sum_list (map amount (filter (\<lambda>r. referrerId r = u \<and> r_status r = Pending) (rewards s))))
    \<and> withdrawalTotalProfit u s = planProfitSum u s + paidAsReferrer u s"
proof (intro conjI impI)
  assume "allProgressReconciling (Some u) s = Inr (sm, s')"
  then show "\<exists>s1. reconcile u s = Inr s1 \<and> s' = ensureProgress u s1
          \<and> totalProfit sm = (case findUser u s1 of None \<Rightarrow> 0 | Some usr \<Rightarrow> balance usr)
                               + planProfitSum u s"
    by (rule reconciling_total[OF assms])
next
  assume a: "allProgressPaidEither (Some u) s = Inr (sm, s')"
  from paidEither_total[OF assms a] show "s' = s" by blast
  from paidEither_total[OF assms a] show "totalProfit sm = planProfitSum u s
            + sum_list (map amount (filter (\<lambda>r. (referrerId r = u \<or> referredUserId r = u)
                                              \<and> r_status r = Paid) (rewards s)))" by blast
next
  assume a: "allProgressPaidReferrer (Some u) s = Inr (sm, s')"
  from paidReferrer_total[OF assms a] show "s' = s" by blast
  from paidReferrer_total[OF assms a]
  show "totalProfit sm = planProfitSum u s + paidAsReferrer u s" by blast
next
  assume a: "allProgressPendingInclusive (Some u) s = Inr (sm, s')"
  from pendingInclusive_total[OF assms a] show "s' = ensureProgress u s" by blast
  from pendingInclusive_total[OF assms a]
  show "totalProfit sm = planProfitSum u s + paidAsReferrer u s
            + sum_list (map amount (filter (\<lambda>r. referrerId r = u \<and> r_status r = Pending) (rewards s)))"
    by blast
next
  show "withdrawalTotalProfit u s = planProfitSum u s + paidAsReferrer u s"
    by (simp add: withdrawalTotalProfit_def planProfitOf_sum_list sumAmounts_sum_list
        planProfitSum_def paidAsReferrer_def progressesOf_def)
qed

text \<open>
  C6 as stated fails: on one and the same store the four handlers return the totals 259, 11,
  9 and 19 for user 1 (and none of them changes the store).
\<close>

theorem total_profit_differs:
  "allProgressReconciling (Some 1) summaryDb = Inr (summaryOf 259 4 (Some 254), summaryDb)
   \<and> allProgressPaidEither (Some 1) summaryDb = Inr (summaryOf 11 6 None, summaryDb)
   \<and> allProgressPaidReferrer (Some 1) summaryDb = Inr (summaryOf 9 4 None, summaryDb)
   \<and> allProgressPendingInclusive (Some 1) summaryDb = Inr (summaryOf 19 14 None, summaryDb)
   \<and> totalProfit (summaryOf 259 4 (Some 254)) = 259
   \<and> totalProfit (summaryOf 11 6 None) = 11
   \<and> totalProfit (summaryOf 9 4 None) = 9
   \<and> totalProfit (summaryOf 19 14 None) = 19"
  by code_simp

lemma summary_examples:
  "allProgressReconciling (Some 1) summaryDb = Inr (summaryOf 259 4 (Some 254), summaryDb)"
  "allProgressPaidEither (Some 1) summaryDb = Inr (summaryOf 11 6 None, summaryDb)"
  "allProgressPaidReferrer (Some 1) summaryDb = Inr (summaryOf 9 4 None, summaryDb)"
  "allProgressPendingInclusive (Some 1) summaryDb = Inr (summaryOf 19 14 None, summaryDb)"
  by code_simp+

theorem total_profit_formulas_witness:
  "totalProfit (summaryOf 259 4 (Some 254)) = 254 + planProfitSum 1 summaryDb
   \<and> totalProfit (summaryOf 11 6 None) = planProfitSum 1 summaryDb
        + sum_list (map amount (filter (\<lambda>r. (referrerId r = 1 \<or> referredUserId r = 1)
                                          \<and> r_status r = Paid) (rewards summaryDb)))
   \<and> totalProfit (summaryOf 9 4 None) = planProfitSum 1 summaryDb + paidAsReferrer 1 summaryDb
   \<and> totalProfit (summaryOf 19 14 None) = planProfitSum 1 summaryDb + paidAsReferrer 1 summaryDb
        + sum_list (map amount (filter (\<lambda>r. referrerId r = 1 \<and> r_status r = Pending) (rewards summaryDb)))
   \<and> withdrawalTotalProfit 1 summaryDb = planProfitSum 1 summaryDb + paidAsReferrer 1 summaryDb"
proof -
  have n: "(1::nat) \<noteq> 0" by simp
  have r: "reconcile 1 summaryDb = Inr summaryDb"
    by code_simp
  have f: "findUser 1 summaryDb = Some ((newUser 1)\<lparr>balance := 254, totalEarned := 254\<rparr>)"
    by code_simp
  from total_profit_formulas[OF n, of summaryDb "summaryOf 259 4 (Some 254)" summaryDb]
    summary_examples(1)
  obtain s1 where "reconcile 1 summaryDb = Inr s1"
    "totalProfit (summaryOf 259 4 (Some 254))
       = (case findUser 1 s1 of None \<Rightarrow> 0 | Some usr \<Rightarrow> balance usr) + planProfitSum 1 summaryDb"
    by blast
  with r f have a: "totalProfit (summaryOf 259 4 (Some 254)) = 254 + planProfitSum 1 summaryDb"
    by (simp add: newUser_def)
  from total_profit_formulas[OF n, of summaryDb "summaryOf 11 6 None" summaryDb] summary_examples(2)
  have b: "totalProfit (summaryOf 11 6 None) = planProfitSum 1 summaryDb
        + sum_list (map amount (filter (\<lambda>r. (referrerId r = 1 \<or> referredUserId r = 1)
                                          \<and> r_status r = Paid) (rewards summaryDb)))"
    by blast
  from total_profit_formulas[OF n, of summaryDb "summaryOf 9 4 None" summaryDb] summary_examples(3)
  have c: "totalProfit (summaryOf 9 4 None) = planProfitSum 1 summaryDb + paidAsReferrer 1 summaryDb"
    by blast
  have e: "ensureProgress 1 summaryDb = summaryDb" by code_simp
  from total_profit_formulas[OF n, of summaryDb "summaryOf 19 14 None" summaryDb] summary_examples(4)
  have d: "totalProfit (summaryOf 19 14 None) = planProfitSum 1 summaryDb + paidAsReferrer 1 summaryDb
        + sum_list (map amount (filter (\<lambda>r. referrerId r = 1 \<and> r_status r = Pending) (rewards summaryDb)))"
    by blast
  from total_profit_formulas[OF n, of summaryDb]
  have w: "withdrawalTotalProfit 1 summaryDb = planProfitSum 1 summaryDb + paidAsReferrer 1 summaryDb"
    by blast
  from a b c d w show ?thesis by blast
qed

section \<open>Properties of the tier table\<close>

declare natToString.simps [simp del]




lemma natToString_nonempty: "natToString n \<noteq> []"
  by (simp add: natToString.simps[of n])

lemma natToString_no_minus: "hd (natToString n) \<noteq> CHR ''-''"
proof (induction n rule: natToString.induct)
  case (1 n)
  show ?case
  proof (cases "n < 10")
    case True
    have "char_of (48 + n) \<noteq> CHR ''-''"
    proof
      assume "char_of (48 + n) = CHR ''-''"
      then have "(of_char (char_of (48 + n)) :: nat) = of_char CHR ''-''" by (rule arg_cong)
      with True show False by simp
    qed
    with True show ?thesis by (simp add: natToString.simps[of n])
  next
    case False
    with 1 show ?thesis
      by (simp add: natToString.simps[of n] natToString_nonempty)
  qed
qed

























section \<open>Properties of the withdrawal\<close>





















end
